theory Spec2Isabelle
  imports Main "HOL-Library.Word" "HOL-Library.AList"
begin

unbundle bit_operations_syntax

section \<open>Errors\<close>

text \<open>
  A Go \<^verbatim>\<open>error\<close> value. \<open>ErrNotExist\<close> stands for the errors of the storage
  collaborator that \<^verbatim>\<open>os.IsNotExist\<close> accepts, \<open>ErrOther\<close> for every other
  error of a collaborator (storage, permission), and \<open>ErrNew m\<close> for
  \<^verbatim>\<open>errors.New(m)\<close> in the driver and in the standard library.
\<close>

datatype error = ErrNotExist | ErrOther string | ErrNew string

fun os_IsNotExist :: "error \<Rightarrow> bool" where
  "os_IsNotExist ErrNotExist = True"
| "os_IsNotExist (ErrOther m) = False"
| "os_IsNotExist (ErrNew m) = False"

fun Error :: "error \<Rightarrow> string" where
  "Error ErrNotExist = ''file does not exist''"
| "Error (ErrOther m) = m"
| "Error (ErrNew m) = m"

text \<open>The three kind-precondition failures the driver raises itself (WrongKind).\<close>

definition WrongKind :: "error \<Rightarrow> bool" where
  "WrongKind e \<longleftrightarrow>
     e = ErrNew ''Not a directory'' \<or> e = ErrNew ''Not a file'' \<or>
     e = ErrNew ''A dir has the same name''"

section \<open>Paths: the functions of \<^verbatim>\<open>strings\<close> and \<^verbatim>\<open>path/filepath\<close> the driver calls\<close>

text \<open>\<^verbatim>\<open>strings.Split(s, "/")\<close>: the pieces between the slashes; one piece for no slash.\<close>

fun Split :: "string \<Rightarrow> string list" where
  "Split [] = [[]]"
| "Split (c # cs) =
     (if c = CHR ''/'' then [] # Split cs
      else (case Split cs of w # ws \<Rightarrow> (c # w) # ws | [] \<Rightarrow> [[c]]))"

text \<open>\<^verbatim>\<open>strings.Join(elems, "/")\<close>.\<close>

fun Join :: "string list \<Rightarrow> string" where
  "Join [] = []"
| "Join [e] = e"
| "Join (e # es) = e @ ''/'' @ Join es"

text \<open>
  \<^verbatim>\<open>filepath.Clean\<close> on a slash-separated path: empty and \<open>.\<close> elements go, an inner
  \<open>..\<close> goes with the element before it, a \<open>..\<close> at the root of a rooted path goes, a
  leading \<open>..\<close> of a relative path stays, and the empty result is \<open>.\<close>.
\<close>

definition rooted :: "string \<Rightarrow> bool" where
  "rooted p \<longleftrightarrow> (case p of [] \<Rightarrow> False | c # cs \<Rightarrow> c = CHR ''/'')"

definition clean_step :: "bool \<Rightarrow> string list \<Rightarrow> string \<Rightarrow> string list" where
  "clean_step r out c =
     (if c = [] \<or> c = ''.'' then out
      else if c = ''..'' then
        (if out \<noteq> [] \<and> last out \<noteq> ''..'' then butlast out
         else if r then out else out @ [c])
      else out @ [c])"

definition Clean :: "string \<Rightarrow> string" where
  "Clean p =
     (let out = foldl (clean_step (rooted p)) [] (Split p);
          s = (if rooted p then ''/'' else []) @ Join out
      in if s = [] then ''.'' else s)"

text \<open>
  \<^verbatim>\<open>filepath.Join\<close>: the elements from the first non-empty one on, joined by slashes and
  cleaned; the empty string when every element is empty.
\<close>

fun filepath_Join :: "string list \<Rightarrow> string" where
  "filepath_Join [] = []"
| "filepath_Join (e # es) = (if e \<noteq> [] then Clean (Join (e # es)) else filepath_Join es)"

text \<open>
  \<^verbatim>\<open>filepath.Rel("/", targpath)\<close>, the only base path the driver uses: the cleaned target
  without its leading slash, \<open>.\<close> for the root itself, and an error for a target that is
  not rooted, since a relative path cannot be made relative to an absolute one.
\<close>

definition Rel_root :: "string \<Rightarrow> error + string" where
  "Rel_root targpath =
     (let targ = Clean targpath in
      if targ = ''/'' then Inr ''.''
      else if rooted targ then Inr (tl targ)
      else Inl (ErrNew (''Rel: can't make '' @ targpath @ '' relative to /'')))"

section \<open>Data\<close>

text \<open>\<^verbatim>\<open>os.FileMode\<close> is a 32-bit word; \<^verbatim>\<open>os.ModeDir\<close> is its top bit.\<close>

type_synonym FileMode = "32 word"

definition ModeDir :: FileMode where
  "ModeDir = push_bit 31 1"

definition ModePerm :: FileMode where
  "ModePerm = 511"

text \<open>What the storage collaborator tells about an entry (\<^verbatim>\<open>os.FileInfo\<close>).\<close>

record file_info =
  fi_Name :: string
  fi_Size :: int
  fi_Mode :: FileMode
  fi_IsDir :: bool

text \<open>
  The driver's \<^verbatim>\<open>FileInfo\<close>: the embedded \<^verbatim>\<open>os.FileInfo\<close> with a mode, an owner and
  a group of its own. \<^verbatim>\<open>Mode()\<close>, \<^verbatim>\<open>Owner()\<close> and \<^verbatim>\<open>Group()\<close> read the three fields;
  every other method is the embedded one.
\<close>

record FileInfo =
  base :: file_info
  mode :: FileMode
  owner :: string
  group :: string

text \<open>The permission collaborator (\<^verbatim>\<open>server.Perm\<close>), keyed by the path alone.\<close>

record Perm =
  GetMode :: "string \<Rightarrow> error + FileMode"
  GetOwner :: "string \<Rightarrow> error + string"
  GetGroup :: "string \<Rightarrow> error + string"

record GitDriver =
  RootPath :: string
  perm :: Perm

text \<open>
  An input stream (\<^verbatim>\<open>io.Reader\<close>): the bytes it delivers, and the error it ends with
  when it does not end with end-of-file.
\<close>

record reader =
  r_bytes :: string
  r_err :: "error option"

record signature =
  sig_Name :: string
  sig_Email :: string
  sig_When :: nat

record 'ix commit_record =
  c_message :: string
  c_author :: signature
  c_snapshot :: 'ix

text \<open>
  The repository under the root path: the working tree's filesystem, the staging area
  and the commit log, oldest commit first.
\<close>

record ('fs, 'ix) repo =
  tree :: 'fs
  index :: 'ix
  commits :: "'ix commit_record list"

datatype open_flag = O_RDWR | O_APPEND | O_CREATE | O_TRUNC

datatype whence = SEEK_SET | SEEK_CUR | SEEK_END

text \<open>
  The storage collaborator (go-git and the filesystem of its working tree), a library
  outside the repository, as the operations the driver calls on it. \<open>'fs\<close> is the state
  of the working tree's filesystem, \<open>'ix\<close> the staging area, \<open>'h\<close> an open file. An
  operation that changes the filesystem returns the new one; one that fails returns the
  error and leaves the filesystem as it was, except \<open>f_Write\<close>, which may fail after a
  part of the bytes went through. \<open>f_ReadAll\<close> is what a caller reads from an open file
  up to end-of-file; the driver does not call it. \<open>commit_fault\<close> is the error, if any,
  with which \<^verbatim>\<open>Worktree.Commit\<close> fails in a state; \<open>Now\<close> is \<^verbatim>\<open>time.Now()\<close>.
\<close>

record ('fs, 'ix, 'h) backend =
  PlainOpen :: "string \<Rightarrow> ('fs, 'ix) repo \<Rightarrow> error option"
  Worktree :: "('fs, 'ix) repo \<Rightarrow> error option"
  fs_Stat :: "'fs \<Rightarrow> string \<Rightarrow> error + file_info"
  fs_Lstat :: "'fs \<Rightarrow> string \<Rightarrow> error + file_info"
  fs_ReadDir :: "'fs \<Rightarrow> string \<Rightarrow> error + file_info list"
  fs_Open :: "'fs \<Rightarrow> string \<Rightarrow> error + 'h"
  fs_Create :: "'fs \<Rightarrow> string \<Rightarrow> error + 'fs \<times> 'h"
  fs_OpenFile :: "'fs \<Rightarrow> string \<Rightarrow> open_flag list \<Rightarrow> FileMode \<Rightarrow> error + 'h"
  fs_Remove :: "'fs \<Rightarrow> string \<Rightarrow> error + 'fs"
  fs_Rename :: "'fs \<Rightarrow> string \<Rightarrow> string \<Rightarrow> error + 'fs"
  fs_MkdirAll :: "'fs \<Rightarrow> string \<Rightarrow> FileMode \<Rightarrow> error + 'fs"
  f_Seek :: "'fs \<Rightarrow> 'h \<Rightarrow> int \<Rightarrow> whence \<Rightarrow> error + 'h"
  f_Write :: "'fs \<Rightarrow> 'h \<Rightarrow> string \<Rightarrow> 'fs \<times> nat \<times> error option"
  f_ReadAll :: "'fs \<Rightarrow> 'h \<Rightarrow> string"
  tree_Add :: "'fs \<Rightarrow> 'ix \<Rightarrow> string \<Rightarrow> error + 'ix"
  commit_fault :: "('fs, 'ix) repo \<Rightarrow> error option"
  Now :: "('fs, 'ix) repo \<Rightarrow> nat"

text \<open>
  Modelled from the spec: \<^verbatim>\<open>Worktree.Commit\<close> of the storage collaborator, which is not
  part of the repository. It "creates a commit record over everything currently staged",
  with the message and the author it is given, or fails and creates none.
\<close>

definition tree_Commit ::
  "('fs, 'ix, 'h) backend \<Rightarrow> string \<Rightarrow> signature \<Rightarrow> ('fs, 'ix) repo \<Rightarrow> error + ('fs, 'ix) repo"
where
  "tree_Commit B msg author r =
     (case commit_fault B r of
        Some err \<Rightarrow> Inl err
      | None \<Rightarrow>
          Inr (r\<lparr>commits := commits r @
                 [\<lparr>c_message = msg, c_author = author, c_snapshot = index r\<rparr>]\<rparr>))"

text \<open>
  \<^verbatim>\<open>io.Copy(dst, src)\<close>: the bytes of the stream are written to the open file; the result
  is the number of bytes written and the first error met, of the write or of the stream.
\<close>

definition io_Copy ::
  "('fs, 'ix, 'h) backend \<Rightarrow> 'fs \<Rightarrow> 'h \<Rightarrow> reader \<Rightarrow> 'fs \<times> int \<times> error option"
where
  "io_Copy B fs dst src =
     (case f_Write B fs dst (r_bytes src) of
        (fs', n, Some err) \<Rightarrow> (fs', int n, Some err)
      | (fs', n, None) \<Rightarrow> (fs', int n, r_err src))"

section \<open>The driver\<close>

definition realPath :: "GitDriver \<Rightarrow> string \<Rightarrow> string" where
  "realPath driver path = (let paths = Split path in filepath_Join (RootPath driver # paths))"

text \<open>
  Every method opens the repository and its working tree anew. A method takes the state
  of the repository and returns the state it leaves, next to its Go results.
\<close>

definition ChangeDir ::
  "('fs, 'ix, 'h) backend \<Rightarrow> GitDriver \<Rightarrow> string \<Rightarrow> ('fs, 'ix) repo \<Rightarrow>
     error option \<times> ('fs, 'ix) repo"
where
  "ChangeDir B driver path r =
     (case PlainOpen B (RootPath driver) r of Some err \<Rightarrow> (Some err, r) | None \<Rightarrow>
      (case Worktree B r of Some err \<Rightarrow> (Some err, r) | None \<Rightarrow>
       (case fs_Stat B (tree r) path of Inl err \<Rightarrow> (Some err, r) | Inr f \<Rightarrow>
          if fi_IsDir f then (None, r) else (Some (ErrNew ''Not a directory''), r))))"

definition Stat ::
  "('fs, 'ix, 'h) backend \<Rightarrow> GitDriver \<Rightarrow> string \<Rightarrow> ('fs, 'ix) repo \<Rightarrow>
     (error + FileInfo) \<times> ('fs, 'ix) repo"
where
  "Stat B driver path r =
     (case PlainOpen B (RootPath driver) r of Some err \<Rightarrow> (Inl err, r) | None \<Rightarrow>
      (case Worktree B r of Some err \<Rightarrow> (Inl err, r) | None \<Rightarrow>
       (case fs_Stat B (tree r) path of Inl err \<Rightarrow> (Inl err, r) | Inr f \<Rightarrow>
        (case GetMode (perm driver) path of Inl err \<Rightarrow> (Inl err, r) | Inr m \<Rightarrow>
         (let m' = (if fi_IsDir f then m OR ModeDir else m) in
          (case GetOwner (perm driver) path of Inl err \<Rightarrow> (Inl err, r) | Inr ow \<Rightarrow>
           (case GetGroup (perm driver) path of Inl err \<Rightarrow> (Inl err, r) | Inr gr \<Rightarrow>
              (Inr \<lparr>base = f, mode = m', owner = ow, group = gr\<rparr>, r))))))))"

text \<open>
  The loop of \<^verbatim>\<open>ListDir\<close> over the entries \<^verbatim>\<open>ReadDir\<close> returned. The callback is a
  closure: it has a state \<open>'c\<close> of its own, which it may change also when it fails.
\<close>

fun ListDir_loop ::
  "('fs, 'ix, 'h) backend \<Rightarrow> GitDriver \<Rightarrow> string \<Rightarrow> string list \<Rightarrow>
     ('c \<Rightarrow> FileInfo \<Rightarrow> error option \<times> 'c) \<Rightarrow> 'fs \<Rightarrow> file_info list \<Rightarrow> 'c \<Rightarrow>
     error option \<times> 'c"
where
  "ListDir_loop B driver path paths callback fs [] c = (None, c)"
| "ListDir_loop B driver path paths callback fs (file # files) c =
     (let rPath = filepath_Join (paths @ [fi_Name file]) in
      (case fs_Stat B fs rPath of Inl err \<Rightarrow> (Some err, c) | Inr info \<Rightarrow>
       (let m = fi_Mode info;
            m' = (if fi_IsDir info then m OR ModeDir else m) in
        (case GetOwner (perm driver) path of Inl err \<Rightarrow> (Some err, c) | Inr ow \<Rightarrow>
         (case GetGroup (perm driver) path of Inl err \<Rightarrow> (Some err, c) | Inr gr \<Rightarrow>
          (case callback c \<lparr>base = info, mode = m', owner = ow, group = gr\<rparr> of
             (Some err, c') \<Rightarrow> (Some err, c')
           | (None, c') \<Rightarrow> ListDir_loop B driver path paths callback fs files c'))))))"

definition ListDir ::
  "('fs, 'ix, 'h) backend \<Rightarrow> GitDriver \<Rightarrow> string \<Rightarrow>
     ('c \<Rightarrow> FileInfo \<Rightarrow> error option \<times> 'c) \<Rightarrow> 'c \<Rightarrow> ('fs, 'ix) repo \<Rightarrow>
     (error option \<times> 'c) \<times> ('fs, 'ix) repo"
where
  "ListDir B driver path callback c r =
     (case PlainOpen B (RootPath driver) r of Some err \<Rightarrow> ((Some err, c), r) | None \<Rightarrow>
      (case Worktree B r of Some err \<Rightarrow> ((Some err, c), r) | None \<Rightarrow>
       (case fs_ReadDir B (tree r) path of Inl err \<Rightarrow> ((Some err, c), r) | Inr files \<Rightarrow>
        (let paths = Split path in
         (ListDir_loop B driver path paths callback (tree r) files c, r)))))"

definition add ::
  "('fs, 'ix, 'h) backend \<Rightarrow> GitDriver \<Rightarrow> string \<Rightarrow> ('fs, 'ix) repo \<Rightarrow>
     error option \<times> ('fs, 'ix) repo"
where
  "add B driver destPath r =
     (case Worktree B r of Some err \<Rightarrow> (Some err, r) | None \<Rightarrow>
      (case Rel_root destPath of Inl err \<Rightarrow> (Some err, r) | Inr addPath \<Rightarrow>
       (case tree_Add B (tree r) (index r) addPath of Inl err \<Rightarrow> (Some err, r)
        | Inr ix \<Rightarrow> (None, r\<lparr>index := ix\<rparr>))))"

definition commit ::
  "('fs, 'ix, 'h) backend \<Rightarrow> GitDriver \<Rightarrow> ('fs, 'ix) repo \<Rightarrow> error option \<times> ('fs, 'ix) repo"
where
  "commit B driver r =
     (case Worktree B r of Some err \<Rightarrow> (Some err, r) | None \<Rightarrow>
      (case tree_Commit B ''example go-git commit''
              \<lparr>sig_Name = ''John Doe'', sig_Email = ''john@doe.org'', sig_When = Now B r\<rparr> r of
         Inl err \<Rightarrow> (Some err, r)
       | Inr r' \<Rightarrow> (None, r')))"

definition DeleteDir ::
  "('fs, 'ix, 'h) backend \<Rightarrow> GitDriver \<Rightarrow> string \<Rightarrow> ('fs, 'ix) repo \<Rightarrow>
     error option \<times> ('fs, 'ix) repo"
where
  "DeleteDir B driver path r =
     (case PlainOpen B (RootPath driver) r of Some err \<Rightarrow> (Some err, r) | None \<Rightarrow>
      (case Worktree B r of Some err \<Rightarrow> (Some err, r) | None \<Rightarrow>
       (case fs_Lstat B (tree r) path of Inl err \<Rightarrow> (Some err, r) | Inr f \<Rightarrow>
        if \<not> fi_IsDir f then (Some (ErrNew ''Not a directory''), r)
        else
         (case fs_Remove B (tree r) path of Inl err \<Rightarrow> (Some err, r) | Inr fs' \<Rightarrow>
          (case add B driver path (r\<lparr>tree := fs'\<rparr>) of
             (Some err, r1) \<Rightarrow> (Some err, r1)
           | (None, r1) \<Rightarrow> commit B driver r1)))))"

definition DeleteFile ::
  "('fs, 'ix, 'h) backend \<Rightarrow> GitDriver \<Rightarrow> string \<Rightarrow> ('fs, 'ix) repo \<Rightarrow>
     error option \<times> ('fs, 'ix) repo"
where
  "DeleteFile B driver path r =
     (case PlainOpen B (RootPath driver) r of Some err \<Rightarrow> (Some err, r) | None \<Rightarrow>
      (case Worktree B r of Some err \<Rightarrow> (Some err, r) | None \<Rightarrow>
       (case fs_Lstat B (tree r) path of Inl err \<Rightarrow> (Some err, r) | Inr f \<Rightarrow>
        if fi_IsDir f then (Some (ErrNew ''Not a file''), r)
        else
         (case fs_Remove B (tree r) path of Inl err \<Rightarrow> (Some err, r) | Inr fs' \<Rightarrow>
          (case add B driver path (r\<lparr>tree := fs'\<rparr>) of
             (Some err, r1) \<Rightarrow> (Some err, r1)
           | (None, r1) \<Rightarrow> commit B driver r1)))))"

definition Rename ::
  "('fs, 'ix, 'h) backend \<Rightarrow> GitDriver \<Rightarrow> string \<Rightarrow> string \<Rightarrow> ('fs, 'ix) repo \<Rightarrow>
     error option \<times> ('fs, 'ix) repo"
where
  "Rename B driver fromPath toPath r =
     (case PlainOpen B (RootPath driver) r of Some err \<Rightarrow> (Some err, r) | None \<Rightarrow>
      (case Worktree B r of Some err \<Rightarrow> (Some err, r) | None \<Rightarrow>
       (case fs_Rename B (tree r) fromPath toPath of Inl err \<Rightarrow> (Some err, r) | Inr fs' \<Rightarrow>
        (case add B driver fromPath (r\<lparr>tree := fs'\<rparr>) of
           (Some err, r1) \<Rightarrow> (Some err, r1)
         | (None, r1) \<Rightarrow>
            (case add B driver toPath r1 of
               (Some err, r2) \<Rightarrow> (Some err, r2)
             | (None, r2) \<Rightarrow> commit B driver r2)))))"

definition MakeDir ::
  "('fs, 'ix, 'h) backend \<Rightarrow> GitDriver \<Rightarrow> string \<Rightarrow> ('fs, 'ix) repo \<Rightarrow>
     error option \<times> ('fs, 'ix) repo"
where
  "MakeDir B driver path r =
     (case PlainOpen B (RootPath driver) r of Some err \<Rightarrow> (Some err, r) | None \<Rightarrow>
      (case Worktree B r of Some err \<Rightarrow> (Some err, r) | None \<Rightarrow>
       (case fs_MkdirAll B (tree r) path ModePerm of Inl err \<Rightarrow> (Some err, r) | Inr fs' \<Rightarrow>
        (case add B driver path (r\<lparr>tree := fs'\<rparr>) of
           (Some err, r1) \<Rightarrow> (Some err, r1)
         | (None, r1) \<Rightarrow> commit B driver r1))))"

text \<open>
  \<^verbatim>\<open>GetFile\<close> returns the size and the open file; the result of its \<^verbatim>\<open>Seek\<close> is
  dropped, so after a failed \<^verbatim>\<open>Seek\<close> the file is returned as it was opened.
\<close>

definition GetFile ::
  "('fs, 'ix, 'h) backend \<Rightarrow> GitDriver \<Rightarrow> string \<Rightarrow> int \<Rightarrow> ('fs, 'ix) repo \<Rightarrow>
     (error + int \<times> 'h) \<times> ('fs, 'ix) repo"
where
  "GetFile B driver path offset r =
     (case PlainOpen B (RootPath driver) r of Some err \<Rightarrow> (Inl err, r) | None \<Rightarrow>
      (case Worktree B r of Some err \<Rightarrow> (Inl err, r) | None \<Rightarrow>
       (case fs_Stat B (tree r) path of Inl err \<Rightarrow> (Inl err, r) | Inr info \<Rightarrow>
        (case fs_Open B (tree r) path of Inl err \<Rightarrow> (Inl err, r) | Inr f \<Rightarrow>
         (let f' = (case f_Seek B (tree r) f offset SEEK_SET of Inl err \<Rightarrow> f | Inr g \<Rightarrow> g)
          in (Inr (fi_Size info, f'), r))))))"

text \<open>
  The part of \<^verbatim>\<open>PutFile\<close> that both of its branches end with: stage the path, commit,
  and return the number of bytes copied.
\<close>

definition PutFile_finish ::
  "('fs, 'ix, 'h) backend \<Rightarrow> GitDriver \<Rightarrow> string \<Rightarrow> int \<Rightarrow> ('fs, 'ix) repo \<Rightarrow>
     (int \<times> error option) \<times> ('fs, 'ix) repo"
where
  "PutFile_finish B driver destPath bytes r =
     (case add B driver destPath r of
        (Some err, r1) \<Rightarrow> ((0, Some err), r1)
      | (None, r1) \<Rightarrow>
         (case commit B driver r1 of
            (Some err, r2) \<Rightarrow> ((0, Some err), r2)
          | (None, r2) \<Rightarrow> ((bytes, None), r2)))"

text \<open>
  The existence check of \<^verbatim>\<open>PutFile\<close>: whether the target exists, or the error with which
  the method returns.
\<close>

definition PutFile_isExist ::
  "('fs, 'ix, 'h) backend \<Rightarrow> 'fs \<Rightarrow> string \<Rightarrow> error + bool"
where
  "PutFile_isExist B fs destPath =
     (case fs_Lstat B fs destPath of
        Inr f \<Rightarrow> if fi_IsDir f then Inl (ErrNew ''A dir has the same name'') else Inr True
      | Inl err \<Rightarrow>
          if os_IsNotExist err then Inr False
          else Inl (ErrNew (''Put File error: '' @ Error err @ [CHR 0x0A])))"

definition PutFile ::
  "('fs, 'ix, 'h) backend \<Rightarrow> GitDriver \<Rightarrow> string \<Rightarrow> reader \<Rightarrow> bool \<Rightarrow> ('fs, 'ix) repo \<Rightarrow>
     (int \<times> error option) \<times> ('fs, 'ix) repo"
where
  "PutFile B driver destPath data appendData r =
     (case PlainOpen B (RootPath driver) r of Some err \<Rightarrow> ((0, Some err), r) | None \<Rightarrow>
      (case Worktree B r of Some err \<Rightarrow> ((0, Some err), r) | None \<Rightarrow>
       (case PutFile_isExist B (tree r) destPath of Inl err \<Rightarrow> ((0, Some err), r)
        | Inr isExist \<Rightarrow>
         (let appendData' = (if appendData \<and> \<not> isExist then False else appendData) in
          if \<not> appendData' then
            (case (if isExist then fs_Remove B (tree r) destPath else Inr (tree r)) of
               Inl err \<Rightarrow> ((0, Some err), r)
             | Inr fs1 \<Rightarrow>
                (case fs_Create B fs1 destPath of
                   Inl err \<Rightarrow> ((0, Some err), r\<lparr>tree := fs1\<rparr>)
                 | Inr (fs2, f) \<Rightarrow>
                    (case io_Copy B fs2 f data of
                       (fs3, bytes, Some err) \<Rightarrow> ((0, Some err), r\<lparr>tree := fs3\<rparr>)
                     | (fs3, bytes, None) \<Rightarrow>
                         PutFile_finish B driver destPath bytes (r\<lparr>tree := fs3\<rparr>))))
          else
            (case fs_OpenFile B (tree r) destPath [O_APPEND, O_RDWR] 432 of
               Inl err \<Rightarrow> ((0, Some err), r)
             | Inr f \<Rightarrow>
                (case f_Seek B (tree r) f 0 SEEK_END of
                   Inl err \<Rightarrow> ((0, Some err), r)
                 | Inr f' \<Rightarrow>
                    (case io_Copy B (tree r) f' data of
                       (fs3, bytes, Some err) \<Rightarrow> ((0, Some err), r\<lparr>tree := fs3\<rparr>)
                     | (fs3, bytes, None) \<Rightarrow>
                         PutFile_finish B driver destPath bytes (r\<lparr>tree := fs3\<rparr>))))))))"

record GitDriverFactory =
  f_RootPath :: string
  f_Perm :: Perm

definition NewDriver :: "GitDriverFactory \<Rightarrow> GitDriver" where
  "NewDriver factory = \<lparr>RootPath = f_RootPath factory, perm = f_Perm factory\<rparr>"

section \<open>A storage collaborator in memory\<close>

text \<open>
  Modelled from the spec: the storage collaborator is a library outside the repository,
  "consumed as a library providing open repository, get working tree, stage path, commit,
  and POSIX-like file operations on that tree". The model below is one such collaborator,
  kept in memory: the working tree is an association list from a path, as its list of
  names below the root, to a directory or a file with its bytes; the root is a directory
  that is always there. Every path the driver passes is taken relative to the root.
\<close>

datatype rnode = RDir | RFile string

type_synonym rfs = "(string list \<times> rnode) list"

type_synonym rindex = "(string list \<times> string) list"

record rhandle =
  h_path :: "string list"
  h_pos :: nat
  h_append :: bool

definition resolve :: "string \<Rightarrow> string list" where
  "resolve p = filter (\<lambda>c. c \<noteq> []) (Split (Clean (CHR ''/'' # p)))"

definition r_lookup :: "rfs \<Rightarrow> string list \<Rightarrow> rnode option" where
  "r_lookup fs cs = (if cs = [] then Some RDir else map_of fs cs)"

definition under :: "string list \<Rightarrow> string list \<Rightarrow> bool" where
  "under cs k \<longleftrightarrow> take (length cs) k = cs"

definition info_of :: "string list \<Rightarrow> rnode \<Rightarrow> file_info" where
  "info_of cs n =
     \<lparr>fi_Name = (if cs = [] then ''/'' else last cs),
      fi_Size = (case n of RDir \<Rightarrow> 0 | RFile c \<Rightarrow> int (length c)),
      fi_Mode = (case n of RDir \<Rightarrow> ModeDir OR 493 | RFile c \<Rightarrow> 420),
      fi_IsDir = (case n of RDir \<Rightarrow> True | RFile c \<Rightarrow> False)\<rparr>"

definition r_Stat :: "rfs \<Rightarrow> string \<Rightarrow> error + file_info" where
  "r_Stat fs p =
     (case r_lookup fs (resolve p) of
        None \<Rightarrow> Inl ErrNotExist
      | Some n \<Rightarrow> Inr (info_of (resolve p) n))"

definition r_ReadDir :: "rfs \<Rightarrow> string \<Rightarrow> error + file_info list" where
  "r_ReadDir fs p =
     (case r_lookup fs (resolve p) of
        None \<Rightarrow> Inl ErrNotExist
      | Some (RFile c) \<Rightarrow> Inl (ErrOther ''not a directory'')
      | Some RDir \<Rightarrow>
          Inr (map (\<lambda>(k, n). info_of k n)
                 (filter (\<lambda>(k, n). k \<noteq> [] \<and> butlast k = resolve p) fs)))"

definition r_Open :: "rfs \<Rightarrow> string \<Rightarrow> error + rhandle" where
  "r_Open fs p =
     (case r_lookup fs (resolve p) of
        None \<Rightarrow> Inl ErrNotExist
      | Some n \<Rightarrow> Inr \<lparr>h_path = resolve p, h_pos = 0, h_append = False\<rparr>)"

definition r_OpenFile :: "rfs \<Rightarrow> string \<Rightarrow> open_flag list \<Rightarrow> FileMode \<Rightarrow> error + rhandle" where
  "r_OpenFile fs p flags pm =
     (case r_lookup fs (resolve p) of
        None \<Rightarrow> Inl ErrNotExist
      | Some n \<Rightarrow> Inr \<lparr>h_path = resolve p, h_pos = 0, h_append = (O_APPEND \<in> set flags)\<rparr>)"

definition r_Create :: "rfs \<Rightarrow> string \<Rightarrow> error + rfs \<times> rhandle" where
  "r_Create fs p =
     (let cs = resolve p in
      if cs = [] \<or> r_lookup fs cs = Some RDir then Inl (ErrOther ''is a directory'')
      else if r_lookup fs (butlast cs) \<noteq> Some RDir then Inl ErrNotExist
      else Inr (AList.update cs (RFile []) fs, \<lparr>h_path = cs, h_pos = 0, h_append = False\<rparr>))"

definition r_Remove :: "rfs \<Rightarrow> string \<Rightarrow> error + rfs" where
  "r_Remove fs p =
     (let cs = resolve p in
      case r_lookup fs cs of
        None \<Rightarrow> Inl ErrNotExist
      | Some n \<Rightarrow>
          if cs = [] then Inl (ErrOther ''cannot remove the root'')
          else if list_ex (\<lambda>(k, n). k \<noteq> cs \<and> under cs k) fs
            then Inl (ErrOther ''directory not empty'')
          else Inr (AList.delete cs fs))"

definition r_Rename :: "rfs \<Rightarrow> string \<Rightarrow> string \<Rightarrow> error + rfs" where
  "r_Rename fs a b =
     (let ca = resolve a; cb = resolve b in
      case r_lookup fs ca of
        None \<Rightarrow> Inl ErrNotExist
      | Some n \<Rightarrow>
          if ca = [] \<or> cb = [] then Inl (ErrOther ''cannot rename the root'')
          else if r_lookup fs (butlast cb) \<noteq> Some RDir then Inl ErrNotExist
          else if ca = cb then Inr fs
          else if under ca cb then Inl (ErrOther ''invalid argument'')
          else if r_lookup fs cb \<noteq> None then Inl (ErrOther ''file exists'')
          else
            (case n of
               RFile c \<Rightarrow> Inr (map (\<lambda>(k, m). if k = ca then (cb, m) else (k, m)) fs)
             | RDir \<Rightarrow>
                 Inr (map (\<lambda>(k, m). if under ca k then (cb @ drop (length ca) k, m) else (k, m))
                        fs)))"

fun r_mkdirs :: "rfs \<Rightarrow> string list \<Rightarrow> string list \<Rightarrow> error + rfs" where
  "r_mkdirs fs pre [] = Inr fs"
| "r_mkdirs fs pre (c # cs) =
     (case map_of fs (pre @ [c]) of
        Some (RFile d) \<Rightarrow> Inl (ErrOther ''not a directory'')
      | Some RDir \<Rightarrow> r_mkdirs fs (pre @ [c]) cs
      | None \<Rightarrow> r_mkdirs (fs @ [(pre @ [c], RDir)]) (pre @ [c]) cs)"

definition r_MkdirAll :: "rfs \<Rightarrow> string \<Rightarrow> FileMode \<Rightarrow> error + rfs" where
  "r_MkdirAll fs p pm = r_mkdirs fs [] (resolve p)"

definition r_size :: "rfs \<Rightarrow> string list \<Rightarrow> nat" where
  "r_size fs cs = (case map_of fs cs of Some (RFile c) \<Rightarrow> length c | _ \<Rightarrow> 0)"

definition r_Seek :: "rfs \<Rightarrow> rhandle \<Rightarrow> int \<Rightarrow> whence \<Rightarrow> error + rhandle" where
  "r_Seek fs h off w =
     (let start = (case w of SEEK_SET \<Rightarrow> 0 | SEEK_CUR \<Rightarrow> int (h_pos h)
                   | SEEK_END \<Rightarrow> int (r_size fs (h_path h)))
      in if start + off < 0 then Inl (ErrOther ''invalid argument'')
         else Inr (h\<lparr>h_pos := nat (start + off)\<rparr>))"

definition r_Write :: "rfs \<Rightarrow> rhandle \<Rightarrow> string \<Rightarrow> rfs \<times> nat \<times> error option" where
  "r_Write fs h d =
     (case map_of fs (h_path h) of
        Some (RFile c) \<Rightarrow>
          (let c' = (if h_append h then c @ d
                     else take (h_pos h) c @ replicate (h_pos h - length c) (CHR 0x00) @ d @
                          drop (h_pos h + length d) c)
           in (AList.update (h_path h) (RFile c') fs, length d, None))
      | _ \<Rightarrow> (fs, 0, Some (ErrOther ''bad file descriptor'')))"

definition r_ReadAll :: "rfs \<Rightarrow> rhandle \<Rightarrow> string" where
  "r_ReadAll fs h =
     (case map_of fs (h_path h) of Some (RFile c) \<Rightarrow> drop (h_pos h) c | _ \<Rightarrow> [])"

text \<open>
  Staging "registers one root-relative path's current working-tree state for inclusion in
  the next commit": the entries of the staging area at or below the path are replaced by
  the files the working tree has at or below it.
\<close>

definition r_files_under :: "string list \<Rightarrow> rfs \<Rightarrow> rindex" where
  "r_files_under cs fs =
     concat (map (\<lambda>(k, n). case n of RFile c \<Rightarrow> if under cs k then [(k, c)] else [] | RDir \<Rightarrow> []) fs)"

definition r_Add :: "rfs \<Rightarrow> rindex \<Rightarrow> string \<Rightarrow> error + rindex" where
  "r_Add fs ix p =
     (let cs = resolve p in
      Inr (filter (\<lambda>(k, c). \<not> under cs k) ix @ r_files_under cs fs))"

definition mem_backend :: "(rfs, rindex, rhandle) backend" where
  "mem_backend =
     \<lparr>PlainOpen = (\<lambda>root r. None), Worktree = (\<lambda>r. None),
      fs_Stat = r_Stat, fs_Lstat = r_Stat, fs_ReadDir = r_ReadDir, fs_Open = r_Open,
      fs_Create = r_Create, fs_OpenFile = r_OpenFile, fs_Remove = r_Remove,
      fs_Rename = r_Rename, fs_MkdirAll = r_MkdirAll, f_Seek = r_Seek, f_Write = r_Write,
      f_ReadAll = r_ReadAll, tree_Add = r_Add, commit_fault = (\<lambda>r. None),
      Now = (\<lambda>r. length (commits r))\<rparr>"

definition empty_repo :: "(rfs, rindex) repo" where
  "empty_repo = \<lparr>tree = [], index = [], commits = []\<rparr>"

text \<open>The permission collaborator of \<^verbatim>\<open>cli/main.go\<close>: \<^verbatim>\<open>server.NewSimplePerm("user", "group")\<close>.\<close>

definition SimplePerm :: "string \<Rightarrow> string \<Rightarrow> Perm" where
  "SimplePerm ow gr =
     \<lparr>GetMode = (\<lambda>p. Inr ModePerm), GetOwner = (\<lambda>p. Inr ow), GetGroup = (\<lambda>p. Inr gr)\<rparr>"

definition main_driver :: GitDriver where
  "main_driver = NewDriver \<lparr>f_RootPath = ''/srv/repo'', f_Perm = SimplePerm ''user'' ''group''\<rparr>"

section \<open>The notions the properties are stated with\<close>

text \<open>A call of one of the five mutating methods, and its error result and final state.\<close>

datatype mutation =
    OpMakeDir string
  | OpDeleteDir string
  | OpDeleteFile string
  | OpRename string string
  | OpPutFile string reader bool

fun mutate ::
  "('fs, 'ix, 'h) backend \<Rightarrow> GitDriver \<Rightarrow> mutation \<Rightarrow> ('fs, 'ix) repo \<Rightarrow>
     error option \<times> ('fs, 'ix) repo"
where
  "mutate B driver (OpMakeDir p) r = MakeDir B driver p r"
| "mutate B driver (OpDeleteDir p) r = DeleteDir B driver p r"
| "mutate B driver (OpDeleteFile p) r = DeleteFile B driver p r"
| "mutate B driver (OpRename p q) r = Rename B driver p q r"
| "mutate B driver (OpPutFile p data a) r =
     (case PutFile B driver p data a r of ((n, e), r') \<Rightarrow> (e, r'))"

fun op_paths :: "mutation \<Rightarrow> string list" where
  "op_paths (OpMakeDir p) = [p]"
| "op_paths (OpDeleteDir p) = [p]"
| "op_paths (OpDeleteFile p) = [p]"
| "op_paths (OpRename p q) = [p, q]"
| "op_paths (OpPutFile p data a) = [p]"

text \<open>The repository and its working tree open.\<close>

definition opens :: "('fs, 'ix, 'h) backend \<Rightarrow> GitDriver \<Rightarrow> ('fs, 'ix) repo \<Rightarrow> bool" where
  "opens B driver r \<longleftrightarrow> PlainOpen B (RootPath driver) r = None \<and> Worktree B r = None"

text \<open>
  The kind check of a mutating call: the error with which the call refuses the entry at
  its path before it changes anything, if it does.
\<close>

fun kind_check :: "('fs, 'ix, 'h) backend \<Rightarrow> mutation \<Rightarrow> 'fs \<Rightarrow> error option" where
  "kind_check B (OpMakeDir p) fs = None"
| "kind_check B (OpDeleteDir p) fs =
     (case fs_Lstat B fs p of Inl err \<Rightarrow> Some err
      | Inr f \<Rightarrow> if fi_IsDir f then None else Some (ErrNew ''Not a directory''))"
| "kind_check B (OpDeleteFile p) fs =
     (case fs_Lstat B fs p of Inl err \<Rightarrow> Some err
      | Inr f \<Rightarrow> if fi_IsDir f then Some (ErrNew ''Not a file'') else None)"
| "kind_check B (OpRename p q) fs = None"
| "kind_check B (OpPutFile p data a) fs =
     (case PutFile_isExist B fs p of Inl err \<Rightarrow> Some err | Inr ex \<Rightarrow> None)"

text \<open>
  The backend mutation of a call that passed its kind check: the calls that change the
  working tree, in the order of the method, up to the first that fails; the result is the
  error of that call, if any, and the working tree as these calls leave it.
\<close>

definition once :: "'fs \<Rightarrow> error + 'fs \<Rightarrow> error option \<times> 'fs" where
  "once fs res = (case res of Inl err \<Rightarrow> (Some err, fs) | Inr fs' \<Rightarrow> (None, fs'))"

definition copy_into ::
  "('fs, 'ix, 'h) backend \<Rightarrow> 'fs \<Rightarrow> 'h \<Rightarrow> reader \<Rightarrow> error option \<times> 'fs"
where
  "copy_into B fs f data = (case io_Copy B fs f data of (fs', n, e) \<Rightarrow> (e, fs'))"

fun backend_change ::
  "('fs, 'ix, 'h) backend \<Rightarrow> mutation \<Rightarrow> 'fs \<Rightarrow> error option \<times> 'fs"
where
  "backend_change B (OpMakeDir p) fs = once fs (fs_MkdirAll B fs p ModePerm)"
| "backend_change B (OpDeleteDir p) fs = once fs (fs_Remove B fs p)"
| "backend_change B (OpDeleteFile p) fs = once fs (fs_Remove B fs p)"
| "backend_change B (OpRename p q) fs = once fs (fs_Rename B fs p q)"
| "backend_change B (OpPutFile p data a) fs =
     (if PutFile_isExist B fs p = Inr True \<and> a then
        (case fs_OpenFile B fs p [O_APPEND, O_RDWR] 432 of
           Inl err \<Rightarrow> (Some err, fs)
         | Inr f \<Rightarrow>
            (case f_Seek B fs f 0 SEEK_END of
               Inl err \<Rightarrow> (Some err, fs)
             | Inr f' \<Rightarrow> copy_into B fs f' data))
      else
        (case (if PutFile_isExist B fs p = Inr True then fs_Remove B fs p else Inr fs) of
           Inl err \<Rightarrow> (Some err, fs)
         | Inr fs1 \<Rightarrow>
            (case fs_Create B fs1 p of
               Inl err \<Rightarrow> (Some err, fs1)
             | Inr (fs2, f) \<Rightarrow> copy_into B fs2 f data)))"

text \<open>The commit record every mutating method writes.\<close>

definition driver_commit ::
  "('fs, 'ix, 'h) backend \<Rightarrow> ('fs, 'ix) repo \<Rightarrow> 'ix commit_record" where
  "driver_commit B r =
     \<lparr>c_message = ''example go-git commit'',
      c_author = \<lparr>sig_Name = ''John Doe'', sig_Email = ''john@doe.org'', sig_When = Now B r\<rparr>,
      c_snapshot = index r\<rparr>"

text \<open>
  A callback that also keeps the list of the entries it was called with, and the entries
  \<^verbatim>\<open>ListDir\<close> calls a callback with, in the order of the calls.
\<close>

definition logged ::
  "('c \<Rightarrow> FileInfo \<Rightarrow> error option \<times> 'c) \<Rightarrow> 'c \<times> FileInfo list \<Rightarrow> FileInfo \<Rightarrow>
     error option \<times> 'c \<times> FileInfo list"
where
  "logged callback = (\<lambda>(c, calls) fi. case callback c fi of (e, c') \<Rightarrow> (e, c', calls @ [fi]))"

definition ListDir_calls ::
  "('fs, 'ix, 'h) backend \<Rightarrow> GitDriver \<Rightarrow> string \<Rightarrow>
     ('c \<Rightarrow> FileInfo \<Rightarrow> error option \<times> 'c) \<Rightarrow> 'c \<Rightarrow> ('fs, 'ix) repo \<Rightarrow> FileInfo list"
where
  "ListDir_calls B driver path callback c r =
     snd (snd (fst (ListDir B driver path (logged callback) (c, []) r)))"

text \<open>The path under which \<^verbatim>\<open>ListDir\<close> stats a child of the listed directory.\<close>

definition child_path :: "string \<Rightarrow> file_info \<Rightarrow> string" where
  "child_path path file = filepath_Join (Split path @ [fi_Name file])"

text \<open>
  The error with which a method returns before it looks at the working tree, the staging
  of the paths of a call followed by the commit, and what a mutating method does once the
  repository is open and the kind check is passed.
\<close>
definition open_error :: "('fs, 'ix, 'h) backend \<Rightarrow> GitDriver \<Rightarrow> ('fs, 'ix) repo \<Rightarrow> error option" where
  "open_error B driver r =
     (case PlainOpen B (RootPath driver) r of Some err \<Rightarrow> Some err | None \<Rightarrow> Worktree B r)"

fun stage_commit ::
  "('fs, 'ix, 'h) backend \<Rightarrow> GitDriver \<Rightarrow> string list \<Rightarrow> ('fs, 'ix) repo \<Rightarrow>
     error option \<times> ('fs, 'ix) repo"
where
  "stage_commit B driver [] r = commit B driver r"
| "stage_commit B driver (p # ps) r =
     (case add B driver p r of
        (Some err, r1) \<Rightarrow> (Some err, r1)
      | (None, r1) \<Rightarrow> stage_commit B driver ps r1)"

definition after_checks ::
  "('fs, 'ix, 'h) backend \<Rightarrow> GitDriver \<Rightarrow> mutation \<Rightarrow> ('fs, 'ix) repo \<Rightarrow>
     error option \<times> ('fs, 'ix) repo"
where
  "after_checks B driver op r =
     (case backend_change B op (tree r) of
        (Some err, fs') \<Rightarrow> (Some err, r\<lparr>tree := fs'\<rparr>)
      | (None, fs') \<Rightarrow> stage_commit B driver (op_paths op) (r\<lparr>tree := fs'\<rparr>))"

text \<open>
  The entry \<^verbatim>\<open>ListDir\<close> builds for one child of the listed directory before it calls the
  callback with it, or the error of the backend stat or of the identity lookup with which
  it returns instead.
\<close>

definition ListDir_entry ::
  "('fs, 'ix, 'h) backend \<Rightarrow> GitDriver \<Rightarrow> string \<Rightarrow> 'fs \<Rightarrow> file_info \<Rightarrow> error + FileInfo"
where
  "ListDir_entry B driver path fs file =
     (case fs_Stat B fs (child_path path file) of Inl err \<Rightarrow> Inl err | Inr info \<Rightarrow>
      (case GetOwner (perm driver) path of Inl err \<Rightarrow> Inl err | Inr ow \<Rightarrow>
       (case GetGroup (perm driver) path of Inl err \<Rightarrow> Inl err | Inr gr \<Rightarrow>
          Inr \<lparr>base = info,
               mode = (if fi_IsDir info then fi_Mode info OR ModeDir else fi_Mode info),
               owner = ow, group = gr\<rparr>)))"

text \<open>
  What staging the paths of a call means for the staging area: each path, made relative
  to the root, is added from the working tree, in the order of the call; the result is
  the staging area after the last path, or the error of the first step that fails.
\<close>

fun stage_paths ::
  "('fs, 'ix, 'h) backend \<Rightarrow> 'fs \<Rightarrow> string list \<Rightarrow> 'ix \<Rightarrow> error + 'ix"
where
  "stage_paths B fs [] ix = Inr ix"
| "stage_paths B fs (p # ps) ix =
     (case Rel_root p of Inl err \<Rightarrow> Inl err | Inr rel \<Rightarrow>
      (case tree_Add B fs ix rel of Inl err \<Rightarrow> Inl err | Inr ix' \<Rightarrow> stage_paths B fs ps ix'))"

text \<open>
  Feeding a list of entries to a callback, one after the other, until the callback
  returns an error: the error, if any, and the state the callback is left in.
\<close>

fun feed ::
  "('c \<Rightarrow> FileInfo \<Rightarrow> error option \<times> 'c) \<Rightarrow> 'c \<Rightarrow> FileInfo list \<Rightarrow> error option \<times> 'c"
where
  "feed callback c [] = (None, c)"
| "feed callback c (fi # fis) =
     (case callback c fi of
        (Some err, c') \<Rightarrow> (Some err, c')
      | (None, c') \<Rightarrow> feed callback c' fis)"

text \<open>
  Concrete inputs for the examples: a repository with the directory \<open>/a\<close> and the files
  \<open>/a/e.txt\<close> and \<open>/a/f.txt\<close>, a stream, a permission collaborator that names the
  path it was asked about as owner and as group, a callback that accepts every entry and
  counts, and one that counts and refuses.
\<close>

definition demo_repo :: "(rfs, rindex) repo" where
  "demo_repo =
     \<lparr>tree = [([''a''], RDir), ([''a'', ''e.txt''], RFile ''xy''),
              ([''a'', ''f.txt''], RFile ''hello'')],
      index = [([''a'', ''e.txt''], ''xy''), ([''a'', ''f.txt''], ''hello'')],
      commits = []\<rparr>"

definition stream :: "string \<Rightarrow> reader" where
  "stream bs = \<lparr>r_bytes = bs, r_err = None\<rparr>"

definition path_perm :: Perm where
  "path_perm = \<lparr>GetMode = (\<lambda>p. Inr 0), GetOwner = (\<lambda>p. Inr p), GetGroup = (\<lambda>p. Inr p)\<rparr>"

definition path_driver :: GitDriver where
  "path_driver = \<lparr>RootPath = ''/srv/repo'', perm = path_perm\<rparr>"

definition count_cb :: "nat \<Rightarrow> FileInfo \<Rightarrow> error option \<times> nat" where
  "count_cb n fi = (None, Suc n)"

definition refuse_cb :: "nat \<Rightarrow> FileInfo \<Rightarrow> error option \<times> nat" where
  "refuse_cb n fi = (Some (ErrOther ''stop''), Suc n)"

text \<open>The collaborator in memory with a commit step that fails.\<close>

definition failing_commit_backend :: "(rfs, rindex, rhandle) backend" where
  "failing_commit_backend = mem_backend\<lparr>commit_fault := (\<lambda>r. Some (ErrOther ''commit failed''))\<rparr>"

section \<open>Lemmas on paths\<close>

lemma Split_no_slash: "c \<in> set (Split p) \<Longrightarrow> CHR ''/'' \<notin> set c"
  by (induction p arbitrary: c) (auto split: if_splits list.splits)

lemma clean_step_inv:
  "\<forall>c \<in> set out. c \<noteq> [] \<and> CHR ''/'' \<notin> set c \<Longrightarrow> CHR ''/'' \<notin> set x \<Longrightarrow>
   \<forall>c \<in> set (clean_step b out x). c \<noteq> [] \<and> CHR ''/'' \<notin> set c"
  by (auto simp: clean_step_def dest: in_set_butlastD)

lemma foldl_clean_step_inv:
  "\<forall>c \<in> set out. c \<noteq> [] \<and> CHR ''/'' \<notin> set c \<Longrightarrow> \<forall>x \<in> set xs. CHR ''/'' \<notin> set x \<Longrightarrow>
   \<forall>c \<in> set (foldl (clean_step b) out xs). c \<noteq> [] \<and> CHR ''/'' \<notin> set c"
proof (induction xs arbitrary: out)
  case Nil
  then show ?case by simp
next
  case (Cons x xs)
  have x: "CHR ''/'' \<notin> set x" and xs: "\<forall>y \<in> set xs. CHR ''/'' \<notin> set y"
    using Cons.prems(2) by simp_all
  have "\<forall>c \<in> set (clean_step b out x). c \<noteq> [] \<and> CHR ''/'' \<notin> set c"
    using Cons.prems(1) x by (rule clean_step_inv)
  from Cons.IH [OF this xs] show ?case by simp
qed

lemma rooted_iff: "rooted p \<longleftrightarrow> p \<noteq> [] \<and> hd p = CHR ''/''"
  by (cases p) (auto simp: rooted_def)

lemma Join_hd: "out \<noteq> [] \<Longrightarrow> hd out \<noteq> [] \<Longrightarrow> hd (Join out) = hd (hd out)"
  by (cases out rule: Join.cases) auto

lemma Join_not_rooted:
  assumes "\<forall>c \<in> set out. c \<noteq> [] \<and> CHR ''/'' \<notin> set c"
  shows "\<not> rooted (Join out)"
proof (cases out)
  case Nil
  then show ?thesis by (simp add: rooted_def)
next
  case (Cons c cs)
  with assms have c: "c \<noteq> []" "CHR ''/'' \<notin> set c" by auto
  then have "hd c \<noteq> CHR ''/''" by (cases c) auto
  moreover have "hd (Join out) = hd c" using Join_hd [of out] Cons c by simp
  ultimately show ?thesis by (simp add: rooted_iff)
qed

lemma Clean_not_rooted:
  assumes "\<not> rooted p"
  shows "\<not> rooted (Clean p) \<and> Clean p \<noteq> ''/''"
proof -
  let ?out = "foldl (clean_step False) [] (Split p)"
  have "\<forall>c \<in> set ?out. c \<noteq> [] \<and> CHR ''/'' \<notin> set c"
    by (rule foldl_clean_step_inv) (auto dest: Split_no_slash)
  then have j: "\<not> rooted (Join ?out)" by (rule Join_not_rooted)
  have c: "Clean p = (if Join ?out = [] then ''.'' else Join ?out)"
    using assms by (simp add: Clean_def Let_def)
  have "\<not> rooted ''.''" and "rooted ''/''" by (simp_all add: rooted_def)
  then show ?thesis using j c by (metis (full_types))
qed

lemma Rel_root_relative: "\<not> rooted p \<Longrightarrow> \<exists>e. Rel_root p = Inl e"
  using Clean_not_rooted [of p] by (simp add: Rel_root_def Let_def)

lemma add_relative: "\<not> rooted p \<Longrightarrow> \<exists>e. add B driver p r = (Some e, r)"
  using Rel_root_relative [of p] by (auto simp: add_def split: option.splits)

section \<open>The shape of a mutating call\<close>

lemma add_result:
  "add B driver p r = (e, r') \<Longrightarrow>
     tree r' = tree r \<and> commits r' = commits r \<and> (e \<noteq> None \<longrightarrow> r' = r)"
  by (auto simp: add_def split: option.splits sum.splits)

lemma commit_result:
  "commit B driver r = (e, r') \<Longrightarrow>
     (e = None \<longrightarrow> r' = r\<lparr>commits := commits r @ [driver_commit B r]\<rparr>) \<and> (e \<noteq> None \<longrightarrow> r' = r)"
  by (auto simp: commit_def tree_Commit_def driver_commit_def split: option.splits sum.splits)

lemma opens_iff: "opens B driver r \<longleftrightarrow> open_error B driver r = None"
  by (auto simp: opens_def open_error_def split: option.splits)

lemma MakeDir_form:
  "MakeDir B driver p r =
     (case open_error B driver r of Some err \<Rightarrow> (Some err, r)
      | None \<Rightarrow> after_checks B driver (OpMakeDir p) r)"
  by (simp add: MakeDir_def open_error_def after_checks_def once_def
      split: option.splits sum.splits prod.splits)

lemma DeleteDir_form:
  "DeleteDir B driver p r =
     (case open_error B driver r of Some err \<Rightarrow> (Some err, r)
      | None \<Rightarrow>
         (case kind_check B (OpDeleteDir p) (tree r) of Some err \<Rightarrow> (Some err, r)
          | None \<Rightarrow> after_checks B driver (OpDeleteDir p) r))"
  by (simp add: DeleteDir_def open_error_def after_checks_def once_def
      split: option.splits sum.splits prod.splits)

lemma DeleteFile_form:
  "DeleteFile B driver p r =
     (case open_error B driver r of Some err \<Rightarrow> (Some err, r)
      | None \<Rightarrow>
         (case kind_check B (OpDeleteFile p) (tree r) of Some err \<Rightarrow> (Some err, r)
          | None \<Rightarrow> after_checks B driver (OpDeleteFile p) r))"
  by (simp add: DeleteFile_def open_error_def after_checks_def once_def
      split: option.splits sum.splits prod.splits)

lemma Rename_form:
  "Rename B driver p q r =
     (case open_error B driver r of Some err \<Rightarrow> (Some err, r)
      | None \<Rightarrow> after_checks B driver (OpRename p q) r)"
  by (simp add: Rename_def open_error_def after_checks_def once_def
      split: option.splits sum.splits prod.splits)


lemma PutFile_finish_form:
  "(snd (fst (PutFile_finish B driver p n r)), snd (PutFile_finish B driver p n r)) =
     stage_commit B driver [p] r"
  by (simp add: PutFile_finish_def split: option.splits prod.splits)

lemma PutFile_finish_bytes:
  "PutFile_finish B driver p n r = ((k, None), r') \<Longrightarrow> k = n"
  by (auto simp: PutFile_finish_def split: option.splits prod.splits)

lemma PutFile_form:
  "mutate B driver (OpPutFile p data a) r =
     (case open_error B driver r of Some err \<Rightarrow> (Some err, r)
      | None \<Rightarrow>
         (case kind_check B (OpPutFile p data a) (tree r) of Some err \<Rightarrow> (Some err, r)
          | None \<Rightarrow> after_checks B driver (OpPutFile p data a) r))"
proof (cases "open_error B driver r")
  case (Some err)
  then show ?thesis
    by (auto simp: PutFile_def open_error_def split: option.splits)
next
  case None
  then have o: "PlainOpen B (RootPath driver) r = None" "Worktree B r = None"
    by (auto simp: open_error_def split: option.splits)
  have fin: "\<And>n r0 k e r'. PutFile_finish B driver p n r0 = ((k, e), r') \<Longrightarrow>
      stage_commit B driver [p] r0 = (e, r')"
    using PutFile_finish_form [of B driver p] by (metis fst_conv snd_conv)
  show ?thesis
  proof (cases "PutFile_isExist B (tree r) p")
    case (Inl err)
    then show ?thesis using None o by (simp add: PutFile_def)
  next
    case (Inr ex)
    show ?thesis
    proof (cases "ex \<and> a")
      case True
      then show ?thesis using None o Inr
        by (auto simp: PutFile_def after_checks_def copy_into_def
            simp del: stage_commit.simps dest!: fin split: sum.splits prod.splits option.splits)
    next
      case False
      then show ?thesis using None o Inr
        by (cases ex)
           (auto simp: PutFile_def after_checks_def copy_into_def
              simp del: stage_commit.simps dest!: fin split: sum.splits prod.splits option.splits)
    qed
  qed
qed

lemma mutate_form:
  "mutate B driver op r =
     (case open_error B driver r of Some err \<Rightarrow> (Some err, r)
      | None \<Rightarrow>
         (case kind_check B op (tree r) of Some err \<Rightarrow> (Some err, r)
          | None \<Rightarrow> after_checks B driver op r))"
proof (cases op)
  case (OpMakeDir p)
  show ?thesis unfolding OpMakeDir by (simp add: MakeDir_form split: option.splits)
next
  case (OpDeleteDir p)
  show ?thesis unfolding OpDeleteDir by (simp only: mutate.simps DeleteDir_form)
next
  case (OpDeleteFile p)
  show ?thesis unfolding OpDeleteFile by (simp only: mutate.simps DeleteFile_form)
next
  case (OpRename p q)
  show ?thesis unfolding OpRename by (simp add: Rename_form split: option.splits)
next
  case (OpPutFile p data a)
  show ?thesis unfolding OpPutFile by (rule PutFile_form)
qed

lemma stage_commit_result:
  "stage_commit B driver ps r = (e, r') \<Longrightarrow>
     tree r' = tree r \<and>
     (e = None \<longrightarrow> (\<exists>c. commits r' = commits r @ [c] \<and> c_snapshot c = index r' \<and>
        c_message c = ''example go-git commit'')) \<and>
     (e \<noteq> None \<longrightarrow> commits r' = commits r)"
proof (induction ps arbitrary: r)
  case Nil
  then show ?case
    using commit_result [of B driver r e r'] by (cases e) (auto simp: driver_commit_def)
next
  case (Cons p ps)
  obtain e1 r1 where a: "add B driver p r = (e1, r1)" by (cases "add B driver p r")
  note ar = add_result [OF a]
  show ?case
  proof (cases e1)
    case None
    with a Cons.prems have "stage_commit B driver ps r1 = (e, r')" by simp
    from Cons.IH [OF this] ar show ?thesis by simp
  next
    case (Some err)
    with a Cons.prems have "e = Some err" "r' = r1" by simp_all
    with ar show ?thesis by simp
  qed
qed

lemma stage_commit_relative:
  "p \<in> set ps \<Longrightarrow> \<not> rooted p \<Longrightarrow> fst (stage_commit B driver ps r) \<noteq> None"
proof (induction ps arbitrary: r)
  case Nil
  then show ?case by simp
next
  case (Cons q ps)
  show ?case
  proof (cases "q = p")
    case True
    then show ?thesis using add_relative [OF Cons.prems(2), of B driver r] by auto
  next
    case False
    with Cons.prems have "p \<in> set ps" by simp
    from Cons.IH [OF this Cons.prems(2)] show ?thesis
      by (cases "add B driver q r") (auto split: option.splits)
  qed
qed

lemma after_checks_result:
  assumes "after_checks B driver op r = (e, r')"
  shows "tree r' = snd (backend_change B op (tree r)) \<and>
     (e = None \<longrightarrow> (\<exists>c. commits r' = commits r @ [c] \<and> c_snapshot c = index r' \<and>
        c_message c = ''example go-git commit'')) \<and>
     (e \<noteq> None \<longrightarrow> commits r' = commits r) \<and>
     (fst (backend_change B op (tree r)) \<noteq> None \<longrightarrow>
        e = fst (backend_change B op (tree r)) \<and> index r' = index r)"
proof (cases "backend_change B op (tree r)")
  case (Pair be fs')
  show ?thesis
  proof (cases be)
    case None
    with Pair assms have "stage_commit B driver (op_paths op) (r\<lparr>tree := fs'\<rparr>) = (e, r')"
      by (simp add: after_checks_def)
    from stage_commit_result [OF this] Pair None show ?thesis by simp
  next
    case (Some err)
    with Pair assms show ?thesis
      by (auto simp: after_checks_def)
  qed
qed

lemma after_checks_relative:
  "p \<in> set (op_paths op) \<Longrightarrow> \<not> rooted p \<Longrightarrow> fst (after_checks B driver op r) \<noteq> None"
  using stage_commit_relative [of p "op_paths op" B driver]
  by (auto simp: after_checks_def split: prod.splits option.splits)

lemma mutate_result:
  assumes "mutate B driver op r = (e, r')"
  shows "(e = None \<longrightarrow> (\<exists>c. commits r' = commits r @ [c] \<and> c_snapshot c = index r' \<and>
            c_message c = ''example go-git commit''))"
    and "(e \<noteq> None \<longrightarrow> commits r' = commits r)"
    and "(\<not> opens B driver r \<or> kind_check B op (tree r) \<noteq> None \<longrightarrow> e \<noteq> None \<and> r' = r)"
    and "(opens B driver r \<and> kind_check B op (tree r) = None \<longrightarrow>
            tree r' = snd (backend_change B op (tree r)))"
    and "(opens B driver r \<and> kind_check B op (tree r) = None \<and>
          fst (backend_change B op (tree r)) \<noteq> None \<longrightarrow>
            e = fst (backend_change B op (tree r)) \<and> index r' = index r)"
proof -
  consider (closed) "open_error B driver r \<noteq> None"
    | (refused) "open_error B driver r = None" "kind_check B op (tree r) \<noteq> None"
    | (passed) "open_error B driver r = None" "kind_check B op (tree r) = None"
    by blast
  then have "(e = None \<longrightarrow> (\<exists>c. commits r' = commits r @ [c] \<and> c_snapshot c = index r' \<and>
            c_message c = ''example go-git commit'')) \<and>
     (e \<noteq> None \<longrightarrow> commits r' = commits r) \<and>
     (\<not> opens B driver r \<or> kind_check B op (tree r) \<noteq> None \<longrightarrow> e \<noteq> None \<and> r' = r) \<and>
     (opens B driver r \<and> kind_check B op (tree r) = None \<longrightarrow>
            tree r' = snd (backend_change B op (tree r))) \<and>
     (opens B driver r \<and> kind_check B op (tree r) = None \<and>
          fst (backend_change B op (tree r)) \<noteq> None \<longrightarrow>
            e = fst (backend_change B op (tree r)) \<and> index r' = index r)"
  proof cases
    case closed
    then obtain err where o: "open_error B driver r = Some err" by auto
    with assms have "e = Some err" "r' = r" by (simp_all add: mutate_form)
    then show ?thesis using o by (simp add: opens_iff)
  next
    case refused
    then obtain err where k: "kind_check B op (tree r) = Some err" by auto
    with assms refused have "e = Some err" "r' = r" by (simp_all add: mutate_form)
    then show ?thesis using k by simp
  next
    case passed
    with assms have "after_checks B driver op r = (e, r')" by (simp add: mutate_form)
    from after_checks_result [OF this] passed show ?thesis by (simp add: opens_iff)
  qed
  then show
    "(e = None \<longrightarrow> (\<exists>c. commits r' = commits r @ [c] \<and> c_snapshot c = index r' \<and>
            c_message c = ''example go-git commit''))"
    "(e \<noteq> None \<longrightarrow> commits r' = commits r)"
    "(\<not> opens B driver r \<or> kind_check B op (tree r) \<noteq> None \<longrightarrow> e \<noteq> None \<and> r' = r)"
    "(opens B driver r \<and> kind_check B op (tree r) = None \<longrightarrow>
            tree r' = snd (backend_change B op (tree r)))"
    "(opens B driver r \<and> kind_check B op (tree r) = None \<and>
          fst (backend_change B op (tree r)) \<noteq> None \<longrightarrow>
            e = fst (backend_change B op (tree r)) \<and> index r' = index r)"
    by blast+
qed

lemma mutate_relative:
  assumes "p \<in> set (op_paths op)" "\<not> rooted p"
  shows "fst (mutate B driver op r) \<noteq> None"
  using after_checks_relative [OF assms, of B driver r]
  by (auto simp: mutate_form split: option.splits)

lemma add_None:
  assumes "add B driver p r = (None, r1)"
  shows "\<exists>rel ix. Rel_root p = Inr rel \<and> tree_Add B (tree r) (index r) rel = Inr ix \<and>
           r1 = r\<lparr>index := ix\<rparr>"
  using assms by (auto simp: add_def split: option.splits sum.splits)

lemma stage_commit_None:
  assumes "stage_commit B driver ps r = (None, r')"
  shows "stage_paths B (tree r) ps (index r) = Inr (index r') \<and>
         r' = r\<lparr>index := index r',
                commits := commits r @ [driver_commit B (r\<lparr>index := index r'\<rparr>)]\<rparr>"
  using assms
proof (induction ps arbitrary: r)
  case Nil
  then have "commit B driver r = (None, r')" by simp
  from commit_result [OF this] show ?case by simp
next
  case (Cons p ps)
  obtain e1 r1 where a: "add B driver p r = (e1, r1)" by (cases "add B driver p r")
  with Cons.prems have e1: "e1 = None" and sc: "stage_commit B driver ps r1 = (None, r')"
    by (auto split: option.splits)
  from add_None [OF a [unfolded e1]] obtain rel ix where
    rel: "Rel_root p = Inr rel" and ad: "tree_Add B (tree r) (index r) rel = Inr ix" and
    r1: "r1 = r\<lparr>index := ix\<rparr>"
    by blast
  from Cons.IH [OF sc] have
    st: "stage_paths B (tree r1) ps (index r1) = Inr (index r')" and
    eq: "r' = r1\<lparr>index := index r',
                  commits := commits r1 @ [driver_commit B (r1\<lparr>index := index r'\<rparr>)]\<rparr>"
    by simp_all
  have "stage_paths B (tree r) (p # ps) (index r) = Inr (index r')"
    using rel ad st r1 by simp
  moreover have "r' = r\<lparr>index := index r',
                commits := commits r @ [driver_commit B (r\<lparr>index := index r'\<rparr>)]\<rparr>"
    using eq r1 by simp
  ultimately show ?case by simp
qed

lemma mutate_None:
  assumes "mutate B driver op r = (None, r')"
  shows "opens B driver r" and "kind_check B op (tree r) = None"
    and "backend_change B op (tree r) = (None, tree r')"
    and "stage_paths B (tree r') (op_paths op) (index r) = Inr (index r')"
    and "commits r' = commits r @ [driver_commit B (r'\<lparr>commits := commits r\<rparr>)]"
proof -
  from mutate_result(3) [OF assms] show o: "opens B driver r"
    and k: "kind_check B op (tree r) = None" by auto
  from o have oe: "open_error B driver r = None" by (simp add: opens_iff)
  from assms oe k have ac: "after_checks B driver op r = (None, r')"
    by (simp add: mutate_form)
  obtain be fs' where bc: "backend_change B op (tree r) = (be, fs')"
    by (cases "backend_change B op (tree r)")
  from ac bc have be: "be = None"
    by (cases be) (simp_all add: after_checks_def)
  with ac bc have sc: "stage_commit B driver (op_paths op) (r\<lparr>tree := fs'\<rparr>) = (None, r')"
    by (simp add: after_checks_def)
  from stage_commit_None [OF sc] have
    st: "stage_paths B fs' (op_paths op) (index r) = Inr (index r')" and
    eq: "r' = r\<lparr>tree := fs', index := index r',
        commits := commits r @ [driver_commit B (r\<lparr>tree := fs', index := index r'\<rparr>)]\<rparr>"
    by simp_all
  have t: "tree r' = fs'"
    by (subst eq) simp
  show "backend_change B op (tree r) = (None, tree r')" using bc be t by simp
  show "stage_paths B (tree r') (op_paths op) (index r) = Inr (index r')" using st t by simp
  have "r'\<lparr>commits := commits r\<rparr> = r\<lparr>tree := fs', index := index r'\<rparr>"
    by (subst eq) simp
  then show "commits r' = commits r @ [driver_commit B (r'\<lparr>commits := commits r\<rparr>)]"
    by (subst eq) simp
qed

section \<open>The loop of the listing\<close>

lemma or_ModeDir: "(m OR ModeDir) AND ModeDir = ModeDir"
  by (simp add: bit.conj_disj_distrib2)

lemma loop_step:
  "ListDir_loop B driver path (Split path) cb fs (file # files) c =
     (case ListDir_entry B driver path fs file of
        Inl err \<Rightarrow> (Some err, c)
      | Inr fi \<Rightarrow>
         (case cb c fi of
            (Some err, c') \<Rightarrow> (Some err, c')
          | (None, c') \<Rightarrow> ListDir_loop B driver path (Split path) cb fs files c'))"
  by (simp add: ListDir_entry_def child_path_def Let_def split: sum.splits)

lemma entry_fields:
  assumes "ListDir_entry B driver path fs file = Inr fi"
  shows "GetOwner (perm driver) path = Inr (owner fi)"
    and "GetGroup (perm driver) path = Inr (group fi)"
    and "fs_Stat B fs (child_path path file) = Inr (base fi)"
    and "fi_IsDir (base fi) \<longrightarrow> mode fi AND ModeDir = ModeDir"
  using assms by (auto simp: ListDir_entry_def or_ModeDir split: sum.splits)

lemma loop_logged:
  assumes "ListDir_loop B driver path (Split path) (logged cb) fs files (c, l0) = (e, (c', l))"
  shows "\<exists>new. l = l0 @ new \<and> length new \<le> length files \<and>
      map Inr new = map (ListDir_entry B driver path fs) (take (length new) files) \<and>
      (e = None \<longrightarrow> length new = length files) \<and>
      (\<forall>err. e = Some err \<longrightarrow>
         (length new < length files \<and>
          ListDir_entry B driver path fs (files ! length new) = Inl err) \<or>
         (new \<noteq> [] \<and> (\<exists>c0. fst (cb c0 (last new)) = Some err))) \<and>
      ListDir_loop B driver path (Split path) cb fs files c = (e, c')"
  using assms
proof (induction files arbitrary: c l0)
  case Nil
  then show ?case by simp
next
  case (Cons child rest)
  show ?case
  proof (cases "ListDir_entry B driver path fs child")
    case (Inl err)
    with Cons.prems have "e = Some err" "c' = c" "l = l0" by (simp_all add: loop_step del: ListDir_loop.simps)
    with Inl show ?thesis by (simp add: loop_step del: ListDir_loop.simps)
  next
    case (Inr fi)
    obtain e1 c1 where cb: "cb c fi = (e1, c1)" by (cases "cb c fi")
    then have lg: "logged cb (c, l0) fi = (e1, (c1, l0 @ [fi]))" by (simp add: logged_def)
    show ?thesis
    proof (cases e1)
      case (Some err)
      with Cons.prems Inr lg have "e = Some err" "c' = c1" "l = l0 @ [fi]"
        by (simp_all add: loop_step del: ListDir_loop.simps)
      moreover have "\<exists>c0. fst (cb c0 fi) = Some err"
        using cb Some by (intro exI [of _ c]) simp
      ultimately show ?thesis using Inr cb Some
        by (intro exI [of _ "[fi]"]) (simp add: loop_step del: ListDir_loop.simps)
    next
      case None
      with Cons.prems Inr lg have
        "ListDir_loop B driver path (Split path) (logged cb) fs rest (c1, l0 @ [fi]) = (e, (c', l))"
        by (simp add: loop_step del: ListDir_loop.simps)
      from Cons.IH [OF this] obtain new where n:
        "l = (l0 @ [fi]) @ new" "length new \<le> length rest"
        "map Inr new = map (ListDir_entry B driver path fs) (take (length new) rest)"
        "e = None \<longrightarrow> length new = length rest"
        "\<forall>err. e = Some err \<longrightarrow>
           (length new < length rest \<and>
            ListDir_entry B driver path fs (rest ! length new) = Inl err) \<or>
           (new \<noteq> [] \<and> (\<exists>c0. fst (cb c0 (last new)) = Some err))"
        "ListDir_loop B driver path (Split path) cb fs rest c1 = (e, c')"
        by blast
      have "\<forall>err. e = Some err \<longrightarrow>
           (length (fi # new) < length (child # rest) \<and>
            ListDir_entry B driver path fs ((child # rest) ! length (fi # new)) = Inl err) \<or>
           (fi # new \<noteq> [] \<and> (\<exists>c0. fst (cb c0 (last (fi # new))) = Some err))"
        using n(5) by auto
      then show ?thesis using n(1-4,6) Inr cb None
        by (intro exI [of _ "fi # new"]) (simp add: loop_step del: ListDir_loop.simps)
    qed
  qed
qed

lemma ListDir_logged:
  assumes "opens B driver r" and "fs_ReadDir B (tree r) path = Inr files"
  shows "\<exists>e c' calls.
      ListDir B driver path (logged cb) (c, []) r = ((e, (c', calls)), r) \<and>
      ListDir B driver path cb c r = ((e, c'), r) \<and>
      length calls \<le> length files \<and>
      map Inr calls = map (ListDir_entry B driver path (tree r)) (take (length calls) files) \<and>
      (e = None \<longrightarrow> length calls = length files) \<and>
      (\<forall>err. e = Some err \<longrightarrow>
         (length calls < length files \<and>
          ListDir_entry B driver path (tree r) (files ! length calls) = Inl err) \<or>
         (calls \<noteq> [] \<and> (\<exists>c0. fst (cb c0 (last calls)) = Some err)))"
proof -
  obtain e c' l where
    lp: "ListDir_loop B driver path (Split path) (logged cb) (tree r) files (c, []) = (e, (c', l))"
    by (metis prod.exhaust)
  from loop_logged [OF lp] have n:
    "length l \<le> length files"
    "map Inr l = map (ListDir_entry B driver path (tree r)) (take (length l) files)"
    "e = None \<longrightarrow> length l = length files"
    "\<forall>err. e = Some err \<longrightarrow>
       (length l < length files \<and>
        ListDir_entry B driver path (tree r) (files ! length l) = Inl err) \<or>
       (l \<noteq> [] \<and> (\<exists>c0. fst (cb c0 (last l)) = Some err))"
    "ListDir_loop B driver path (Split path) cb (tree r) files c = (e, c')"
    by auto
  have "ListDir B driver path (logged cb) (c, []) r = ((e, (c', l)), r)"
    using assms lp by (simp add: ListDir_def opens_def)
  moreover have "ListDir B driver path cb c r = ((e, c'), r)"
    using assms n(5) by (simp add: ListDir_def opens_def)
  ultimately show ?thesis using n(1-4) by blast
qed

lemma ListDir_calls_closed:
  "\<not> opens B driver r \<Longrightarrow> ListDir_calls B driver path cb c r = []"
  by (auto simp: ListDir_calls_def ListDir_def opens_def split: option.splits)

lemma ListDir_calls_unreadable:
  "fs_ReadDir B (tree r) path = Inl err \<Longrightarrow> ListDir_calls B driver path cb c r = []"
  by (auto simp: ListDir_calls_def ListDir_def split: option.splits)

lemma calls_are_entries:
  assumes "fi \<in> set (ListDir_calls B driver path cb c r)"
  shows "\<exists>files child. fs_ReadDir B (tree r) path = Inr files \<and> child \<in> set files \<and>
           ListDir_entry B driver path (tree r) child = Inr fi"
proof -
  have o: "opens B driver r"
  proof (rule ccontr)
    assume "\<not> opens B driver r"
    from ListDir_calls_closed [OF this, of path cb c] assms show False by simp
  qed
  obtain files where rd: "fs_ReadDir B (tree r) path = Inr files"
  proof (cases "fs_ReadDir B (tree r) path")
    case (Inl err)
    from ListDir_calls_unreadable [OF this, of driver cb c] assms show ?thesis by simp
  next
    case (Inr files)
    then show ?thesis by (rule that)
  qed
  from ListDir_logged [OF o rd, of cb c] obtain e c' calls where l:
    "ListDir B driver path (logged cb) (c, []) r = ((e, (c', calls)), r)"
    "map Inr calls = map (ListDir_entry B driver path (tree r)) (take (length calls) files)"
    by blast
  then have "ListDir_calls B driver path cb c r = calls" by (simp add: ListDir_calls_def)
  with assms have "(Inr fi :: error + FileInfo) \<in> set (map Inr calls)" by simp
  then have "Inr fi \<in> set (map (ListDir_entry B driver path (tree r))
      (take (length calls) files))"
    by (simp only: l(2))
  then have "Inr fi \<in> ListDir_entry B driver path (tree r) ` set (take (length calls) files)"
    by (simp only: set_map)
  then obtain child where "child \<in> set (take (length calls) files)"
    "ListDir_entry B driver path (tree r) child = Inr fi" by auto
  with rd show ?thesis by (meson in_set_takeD)
qed

lemma ListDir_result_calls:
  assumes "opens B driver r" and "fs_ReadDir B (tree r) path = Inr files"
  shows "(fst (fst (ListDir B driver path callback c r)) = None \<longrightarrow>
            length (ListDir_calls B driver path callback c r) = length files \<and>
            map Inr (ListDir_calls B driver path callback c r) =
              map (ListDir_entry B driver path (tree r)) files) \<and>
         (\<forall>err. fst (fst (ListDir B driver path callback c r)) = Some err \<longrightarrow>
            map Inr (ListDir_calls B driver path callback c r) =
              map (ListDir_entry B driver path (tree r))
                (take (length (ListDir_calls B driver path callback c r)) files) \<and>
            ((length (ListDir_calls B driver path callback c r) < length files \<and>
              ListDir_entry B driver path (tree r)
                (files ! length (ListDir_calls B driver path callback c r)) = Inl err) \<or>
             (ListDir_calls B driver path callback c r \<noteq> [] \<and>
              (\<exists>c0. fst (callback c0 (last (ListDir_calls B driver path callback c r)))
                 = Some err))))"
proof -
  from ListDir_logged [OF assms, of callback c] obtain e c' calls where l:
    "ListDir B driver path (logged callback) (c, []) r = ((e, (c', calls)), r)"
    "ListDir B driver path callback c r = ((e, c'), r)"
    "length calls \<le> length files"
    "map Inr calls = map (ListDir_entry B driver path (tree r)) (take (length calls) files)"
    "e = None \<longrightarrow> length calls = length files"
    "\<forall>err. e = Some err \<longrightarrow>
       (length calls < length files \<and>
        ListDir_entry B driver path (tree r) (files ! length calls) = Inl err) \<or>
       (calls \<noteq> [] \<and> (\<exists>c0. fst (callback c0 (last calls)) = Some err))"
    by blast
  have c: "ListDir_calls B driver path callback c r = calls"
    using l(1) by (simp add: ListDir_calls_def)
  show ?thesis unfolding c using l(2-6) by auto
qed

lemma loop_feed:
  assumes "map (ListDir_entry B driver path fs) xs = map Inr fis"
  shows "ListDir_loop B driver path (Split path) cb fs (xs @ ys) c =
     (case feed cb c fis of
        (Some err, c') \<Rightarrow> (Some err, c')
      | (None, c') \<Rightarrow> ListDir_loop B driver path (Split path) cb fs ys c')"
  using assms
proof (induction xs arbitrary: fis c)
  case Nil
  then show ?case by simp
next
  case (Cons x xs)
  then obtain fi fis' where fis: "fis = fi # fis'"
    and x: "ListDir_entry B driver path fs x = Inr fi"
    and xs: "map (ListDir_entry B driver path fs) xs = map Inr fis'"
    by (cases fis) auto
  show ?case
  proof (cases "cb c fi")
    case (Pair e c')
    show ?thesis
    proof (cases e)
      case None
      with Pair x fis Cons.IH [OF xs, of c'] show ?thesis
        by (simp add: loop_step del: ListDir_loop.simps)
    next
      case (Some err)
      with Pair x fis show ?thesis
        by (simp add: loop_step del: ListDir_loop.simps)
    qed
  qed
qed

lemma feed_logged:
  "feed cb c fis = (None, c1) \<Longrightarrow> feed (logged cb) (c, l) fis = (None, (c1, l @ fis))"
proof (induction fis arbitrary: c l)
  case Nil
  then show ?case by simp
next
  case (Cons fi fis)
  obtain e c' where cb: "cb c fi = (e, c')" by (cases "cb c fi")
  with Cons.prems have e: "e = None" and f: "feed cb c' fis = (None, c1)"
    by (auto split: option.splits)
  from Cons.IH [OF f, of "l @ [fi]"] cb e show ?case
    by (simp add: logged_def)
qed

lemma ListDir_opened:
  assumes "opens B driver r" and "fs_ReadDir B (tree r) path = Inr files"
  shows "ListDir B driver path cb c r =
           (ListDir_loop B driver path (Split path) cb (tree r) files c, r)"
  using assms by (simp add: ListDir_def opens_def)

lemma ListDir_stops:
  assumes o: "opens B driver r" and rd: "fs_ReadDir B (tree r) path = Inr files"
    and k: "k < length files"
    and pre: "map (ListDir_entry B driver path (tree r)) (take k files) = map Inr fis"
    and fd: "feed cb c fis = (None, c1)"
  shows "ListDir_entry B driver path (tree r) (files ! k) = Inl err \<Longrightarrow>
           fst (ListDir B driver path cb c r) = (Some err, c1) \<and>
           ListDir_calls B driver path cb c r = fis"
    and "ListDir_entry B driver path (tree r) (files ! k) = Inr fi \<Longrightarrow>
         cb c1 fi = (Some err, c2) \<Longrightarrow>
           fst (ListDir B driver path cb c r) = (Some err, c2) \<and>
           ListDir_calls B driver path cb c r = fis @ [fi]"
proof -
  have split: "files = take k files @ (files ! k # drop (Suc k) files)"
    using k by (simp add: id_take_nth_drop [symmetric])
  have plain: "ListDir_loop B driver path (Split path) cb (tree r) files c =
      ListDir_loop B driver path (Split path) cb (tree r) (files ! k # drop (Suc k) files) c1"
    by (subst split) (simp add: loop_feed [OF pre] fd del: ListDir_loop.simps)
  have lg: "ListDir_loop B driver path (Split path) (logged cb) (tree r) files (c, []) =
      ListDir_loop B driver path (Split path) (logged cb) (tree r)
        (files ! k # drop (Suc k) files) (c1, fis)"
    by (subst split)
      (simp add: loop_feed [OF pre] feed_logged [OF fd, of "[]"] del: ListDir_loop.simps)
  {
    assume "ListDir_entry B driver path (tree r) (files ! k) = Inl err"
    then show "fst (ListDir B driver path cb c r) = (Some err, c1) \<and>
           ListDir_calls B driver path cb c r = fis"
      using plain lg
      by (simp add: ListDir_opened [OF o rd] ListDir_calls_def loop_step
          del: ListDir_loop.simps)
  }
  {
    assume "ListDir_entry B driver path (tree r) (files ! k) = Inr fi"
      "cb c1 fi = (Some err, c2)"
    then show "fst (ListDir B driver path cb c r) = (Some err, c2) \<and>
           ListDir_calls B driver path cb c r = fis @ [fi]"
      using plain lg
      by (simp add: ListDir_opened [OF o rd] ListDir_calls_def loop_step logged_def
          del: ListDir_loop.simps)
  }
qed

lemma ListDir_completes:
  assumes o: "opens B driver r" and rd: "fs_ReadDir B (tree r) path = Inr files"
    and pre: "map (ListDir_entry B driver path (tree r)) files = map Inr fis"
    and fd: "feed cb c fis = (None, c1)"
  shows "fst (ListDir B driver path cb c r) = (None, c1) \<and>
         ListDir_calls B driver path cb c r = fis"
proof -
  have "ListDir_loop B driver path (Split path) cb (tree r) (files @ []) c = (None, c1)"
    by (simp add: loop_feed [OF pre] fd del: ListDir_loop.simps(2) append_Nil2)
  moreover have
    "ListDir_loop B driver path (Split path) (logged cb) (tree r) (files @ []) (c, []) =
       (None, (c1, fis))"
    by (simp add: loop_feed [OF pre] feed_logged [OF fd, of "[]"]
        del: ListDir_loop.simps(2) append_Nil2)
  ultimately show ?thesis
    by (simp add: ListDir_opened [OF o rd] ListDir_calls_def)
qed

section \<open>Writing, reading and renaming with the collaborator in memory\<close>

lemma mem_fields:
  "PlainOpen mem_backend root r = None" "Worktree mem_backend r = None"
  "fs_Stat mem_backend = r_Stat" "fs_Lstat mem_backend = r_Stat"
  "fs_Open mem_backend = r_Open" "fs_Create mem_backend = r_Create"
  "fs_OpenFile mem_backend = r_OpenFile" "fs_Remove mem_backend = r_Remove"
  "fs_Rename mem_backend = r_Rename" "f_Seek mem_backend = r_Seek"
  "f_Write mem_backend = r_Write" "f_ReadAll mem_backend = r_ReadAll"
  "tree_Add mem_backend = r_Add" "commit_fault mem_backend r = None"
  by (simp_all add: mem_backend_def)

lemma opens_mem: "opens mem_backend driver r"
  by (simp add: opens_def mem_fields)

lemma PutFile_finish_result:
  assumes "PutFile_finish B driver p bytes r = ((n, None), r')"
  shows "n = bytes \<and> tree r' = tree r"
proof -
  obtain e1 r1 where a: "add B driver p r = (e1, r1)" by (cases "add B driver p r")
  obtain e2 r2 where c: "commit B driver r1 = (e2, r2)" by (cases "commit B driver r1")
  from assms a c have "e1 = None" "e2 = None" "r' = r2" "n = bytes"
    by (auto simp: PutFile_finish_def split: option.splits)
  with add_result [OF a] commit_result [OF c] show ?thesis by simp
qed

lemma PutFile_success_fresh:
  assumes "PutFile B driver p data a r = ((n, None), r')"
    and "PutFile_isExist B (tree r) p = Inr False"
  shows "\<exists>fs2 f. fs_Create B (tree r) p = Inr (fs2, f) \<and>
           io_Copy B fs2 f data = (tree r', n, None)"
proof -
  from assms obtain fs2 f fs3 bytes where
    "fs_Create B (tree r) p = Inr (fs2, f)" "io_Copy B fs2 f data = (fs3, bytes, None)"
    "PutFile_finish B driver p bytes (r\<lparr>tree := fs3\<rparr>) = ((n, None), r')"
    by (auto simp: PutFile_def split: option.splits sum.splits prod.splits if_splits)
  with PutFile_finish_result [OF this(3)] show ?thesis by simp
qed

lemma PutFile_success_append:
  assumes "PutFile B driver p data True r = ((n, None), r')"
    and "PutFile_isExist B (tree r) p = Inr True"
  shows "\<exists>f f'. fs_OpenFile B (tree r) p [O_APPEND, O_RDWR] 432 = Inr f \<and>
           f_Seek B (tree r) f 0 SEEK_END = Inr f' \<and>
           io_Copy B (tree r) f' data = (tree r', n, None)"
proof -
  from assms obtain f f' fs3 bytes where
    "fs_OpenFile B (tree r) p [O_APPEND, O_RDWR] 432 = Inr f"
    "f_Seek B (tree r) f 0 SEEK_END = Inr f'"
    "io_Copy B (tree r) f' data = (fs3, bytes, None)"
    "PutFile_finish B driver p bytes (r\<lparr>tree := fs3\<rparr>) = ((n, None), r')"
    by (auto simp: PutFile_def split: option.splits sum.splits prod.splits if_splits)
  with PutFile_finish_result [OF this(4)] show ?thesis by simp
qed

lemma PutFile_append_fresh:
  assumes "fs_Lstat B (tree r) p = Inl e" and "os_IsNotExist e"
  shows "PutFile B driver p data True r = PutFile B driver p data False r"
    and "PutFile_isExist B (tree r) p = Inr False"
proof -
  show ex: "PutFile_isExist B (tree r) p = Inr False"
    using assms by (simp add: PutFile_isExist_def)
  show "PutFile B driver p data True r = PutFile B driver p data False r"
    by (simp add: PutFile_def ex split: option.splits)
qed

lemma io_Copy_None:
  "io_Copy B fs f data = (fs', n, None) \<Longrightarrow>
     \<exists>k. f_Write B fs f (r_bytes data) = (fs', k, None) \<and> n = int k \<and> r_err data = None"
  by (auto simp: io_Copy_def split: prod.splits option.splits)

lemma r_lookup_file:
  "r_lookup fs cs = Some (RFile c) \<Longrightarrow> cs \<noteq> [] \<and> map_of fs cs = Some (RFile c)"
  by (auto simp: r_lookup_def split: if_splits)

lemma r_lookup_None: "r_lookup fs cs = None \<Longrightarrow> cs \<noteq> [] \<and> map_of fs cs = None"
  by (auto simp: r_lookup_def split: if_splits)

lemma r_Write_fresh:
  "r_Write (AList.update cs (RFile []) fs) \<lparr>h_path = cs, h_pos = 0, h_append = False\<rparr> d =
     (AList.update cs (RFile d) fs, length d, None)"
  by (simp add: r_Write_def update_conv')

lemma r_Write_append:
  "map_of fs cs = Some (RFile c) \<Longrightarrow>
   r_Write fs \<lparr>h_path = cs, h_pos = n, h_append = True\<rparr> d =
     (AList.update cs (RFile (c @ d)) fs, length d, None)"
  by (simp add: r_Write_def)

lemma read_back:
  assumes "cs = resolve p" "cs \<noteq> []" "map_of fs cs = Some (RFile c)"
  shows "\<exists>h. fst (GetFile mem_backend driver p 0 (r\<lparr>tree := fs\<rparr>)) = Inr (int (length c), h) \<and>
              r_ReadAll fs h = c"
  using assms
  by (simp add: GetFile_def mem_fields r_Stat_def r_lookup_def info_of_def r_Open_def
      r_Seek_def r_ReadAll_def)

lemma r_Create_Inr:
  assumes "r_Create fs p = Inr (fs2, f)"
  shows "resolve p \<noteq> [] \<and> fs2 = AList.update (resolve p) (RFile []) fs \<and>
         f = \<lparr>h_path = resolve p, h_pos = 0, h_append = False\<rparr>"
  using assms by (auto simp: r_Create_def Let_def split: if_splits)

lemma isExist_mem_file:
  assumes "r_lookup fs (resolve p) = Some (RFile c)"
  shows "PutFile_isExist mem_backend fs p = Inr True"
  using assms by (simp add: PutFile_isExist_def mem_fields r_Stat_def info_of_def)

lemma map_of_moved:
  assumes "map_of fs cb = None" and "ca \<noteq> cb"
  shows "map_of (map (\<lambda>(k, m). if k = ca then (cb, m) else (k, m)) fs) cb = map_of fs ca"
    and "map_of (map (\<lambda>(k, m). if k = ca then (cb, m) else (k, m)) fs) ca = None"
  using assms by (induction fs) (auto split: if_splits)

lemma r_Rename_file:
  assumes "r_lookup fs (resolve a) = Some (RFile c)" and "r_lookup fs (resolve b) = None"
    and "r_Rename fs a b = Inr fs'"
  shows "resolve a \<noteq> []" and "resolve b \<noteq> []" and "resolve a \<noteq> resolve b"
    and "fs' = map (\<lambda>(k, m). if k = resolve a then (resolve b, m) else (k, m)) fs"
proof -
  from r_lookup_file [OF assms(1)] show a: "resolve a \<noteq> []" by simp
  from r_lookup_None [OF assms(2)] show b: "resolve b \<noteq> []" by simp
  from assms(1,2) show ne: "resolve a \<noteq> resolve b" by auto
  from assms a b ne
  show "fs' = map (\<lambda>(k, m). if k = resolve a then (resolve b, m) else (k, m)) fs"
    by (simp add: r_Rename_def Let_def split: if_splits)
qed

lemma Stat_mem:
  "fst (Stat mem_backend driver p r) =
     (case r_Stat (tree r) p of Inl err \<Rightarrow> Inl err | Inr f \<Rightarrow>
      (case GetMode (perm driver) p of Inl err \<Rightarrow> Inl err | Inr m \<Rightarrow>
       (case GetOwner (perm driver) p of Inl err \<Rightarrow> Inl err | Inr ow \<Rightarrow>
        (case GetGroup (perm driver) p of Inl err \<Rightarrow> Inl err | Inr gr \<Rightarrow>
           Inr \<lparr>base = f, mode = (if fi_IsDir f then m OR ModeDir else m),
                owner = ow, group = gr\<rparr>))))"
  by (simp add: Stat_def mem_fields Let_def split: sum.splits)

lemma Rename_None:
  assumes "Rename B driver a b r = (None, r')"
  shows "\<exists>ra rb ix1.
      fs_Rename B (tree r) a b = Inr (tree r') \<and>
      Rel_root a = Inr ra \<and> tree_Add B (tree r') (index r) ra = Inr ix1 \<and>
      Rel_root b = Inr rb \<and> tree_Add B (tree r') ix1 rb = Inr (index r') \<and>
      commits r' = commits r @ [driver_commit B (r'\<lparr>commits := commits r\<rparr>)]"
proof -
  from assms have m: "mutate B driver (OpRename a b) r = (None, r')" by simp
  from mutate_None(3) [OF m] have rn: "fs_Rename B (tree r) a b = Inr (tree r')"
    by (simp add: once_def split: sum.splits)
  from mutate_None(4) [OF m] obtain ra rb ix1 where
    "Rel_root a = Inr ra" "tree_Add B (tree r') (index r) ra = Inr ix1"
    "Rel_root b = Inr rb" "tree_Add B (tree r') ix1 rb = Inr (index r')"
    by (auto split: sum.splits)
  with rn mutate_None(5) [OF m] show ?thesis by blast
qed

section \<open>Mutating calls, commits and the working tree\<close>

text \<open>
  Claim C1, as stated: a mutating call that fails, at whatever step, leaves the working
  tree unchanged. This does not hold. \<^verbatim>\<open>MakeDir("a")\<close> on the empty repository creates
  the directory and then fails in the staging step, because the path is not rooted; and
  \<^verbatim>\<open>MakeDir("/a")\<close> with a collaborator whose commit fails returns the error of the commit.
  In both cases the directory stays in the working tree.
\<close>

theorem C1_failed_call_keeps_change:
  "fst (mutate mem_backend main_driver (OpMakeDir ''a'') empty_repo) \<noteq> None \<and>
   tree (snd (mutate mem_backend main_driver (OpMakeDir ''a'') empty_repo)) \<noteq> tree empty_repo \<and>
   fst (mutate failing_commit_backend main_driver (OpMakeDir ''/a'') empty_repo) \<noteq> None \<and>
   tree (snd (mutate failing_commit_backend main_driver (OpMakeDir ''/a'') empty_repo))
     \<noteq> tree empty_repo"
  by code_simp

text \<open>
  Claim C1, amended in its second half only. For every mutating call: if it succeeds,
  the working tree is in a new committed state, that is, the repository opened, the
  kind check passed, the working tree is what the backend mutation of the call left, the
  staging area is the old one with the paths of the call staged from that working tree,
  in order, and the commit log is the old one with one new commit at its end, which
  records that staging area. If the call fails, no commit is added. If it fails because
  the repository does not open or because the kind check refuses the entry, the state is
  unchanged, and so it is when the backend mutation fails and has left the working tree
  as it was. In every other case the working tree is what the backend calls of the method
  left, whether or not staging and commit succeed afterwards: it is not rolled back.
\<close>

theorem C1_commit_or_no_rollback:
  "(fst (mutate B driver op r) = None \<longrightarrow>
      opens B driver r \<and> kind_check B op (tree r) = None \<and>
      backend_change B op (tree r) = (None, tree (snd (mutate B driver op r))) \<and>
      stage_paths B (tree (snd (mutate B driver op r))) (op_paths op) (index r) =
        Inr (index (snd (mutate B driver op r))) \<and>
      commits (snd (mutate B driver op r)) =
        commits r @ [driver_commit B ((snd (mutate B driver op r))\<lparr>commits := commits r\<rparr>)]) \<and>
   (fst (mutate B driver op r) \<noteq> None \<longrightarrow> commits (snd (mutate B driver op r)) = commits r) \<and>
   (\<not> opens B driver r \<or> kind_check B op (tree r) \<noteq> None \<longrightarrow>
      fst (mutate B driver op r) \<noteq> None \<and> snd (mutate B driver op r) = r) \<and>
   (opens B driver r \<and> kind_check B op (tree r) = None \<longrightarrow>
      tree (snd (mutate B driver op r)) = snd (backend_change B op (tree r))) \<and>
   (opens B driver r \<and> kind_check B op (tree r) = None \<and>
    fst (backend_change B op (tree r)) \<noteq> None \<longrightarrow>
      fst (mutate B driver op r) = fst (backend_change B op (tree r)) \<and>
      index (snd (mutate B driver op r)) = index r) \<and>
   (fst (backend_change B op (tree r)) \<noteq> None \<and> snd (backend_change B op (tree r)) = tree r \<longrightarrow>
      snd (mutate B driver op r) = r)"
proof -
  obtain e r' where m: "mutate B driver op r = (e, r')" by (cases "mutate B driver op r")
  note facts = mutate_result [OF m]
  have success: "e = None \<longrightarrow> opens B driver r \<and> kind_check B op (tree r) = None \<and>
      backend_change B op (tree r) = (None, tree r') \<and>
      stage_paths B (tree r') (op_paths op) (index r) = Inr (index r') \<and>
      commits r' = commits r @ [driver_commit B (r'\<lparr>commits := commits r\<rparr>)]"
  proof
    assume "e = None"
    from mutate_None [OF m [unfolded this]] show "opens B driver r \<and>
      kind_check B op (tree r) = None \<and> backend_change B op (tree r) = (None, tree r') \<and>
      stage_paths B (tree r') (op_paths op) (index r) = Inr (index r') \<and>
      commits r' = commits r @ [driver_commit B (r'\<lparr>commits := commits r\<rparr>)]"
      by (intro conjI)
  qed
  have untouched: "fst (backend_change B op (tree r)) \<noteq> None \<and>
      snd (backend_change B op (tree r)) = tree r \<longrightarrow> r' = r"
  proof
    assume a: "fst (backend_change B op (tree r)) \<noteq> None \<and>
      snd (backend_change B op (tree r)) = tree r"
    show "r' = r"
    proof (cases "opens B driver r \<and> kind_check B op (tree r) = None")
      case True
      with facts(4,5) a have "tree r' = tree r" "index r' = index r" "e \<noteq> None" by auto
      moreover from this(3) facts(2) have "commits r' = commits r" by simp
      ultimately show ?thesis by (intro repo.equality) simp_all
    next
      case False
      with facts(3) show ?thesis by auto
    qed
  qed
  show ?thesis
    unfolding m fst_conv snd_conv
    using success facts(2) facts(3) facts(4) facts(5) untouched
    by (intro conjI)
qed

text \<open>
  The amended claim C1 at work: \<^verbatim>\<open>PutFile("/a/g", "ab", false)\<close> succeeds, the file is in
  the working tree and in the staging area, and there is one commit;
  \<^verbatim>\<open>DeleteFile("/a")\<close> on a directory is refused and changes nothing;
  \<^verbatim>\<open>DeleteDir("/a")\<close> on a directory that is not empty fails in the backend, which leaves
  the working tree as it was, and changes nothing.
\<close>

theorem C1_commit_or_no_rollback_witness:
  "fst (mutate mem_backend main_driver (OpPutFile ''/a/g'' (stream ''ab'') False) demo_repo) = None \<and>
   tree (snd (mutate mem_backend main_driver (OpPutFile ''/a/g'' (stream ''ab'') False) demo_repo))
     = tree demo_repo @ [([''a'', ''g''], RFile ''ab'')] \<and>
   index (snd (mutate mem_backend main_driver (OpPutFile ''/a/g'' (stream ''ab'') False) demo_repo))
     = index demo_repo @ [([''a'', ''g''], ''ab'')] \<and>
   length (commits (snd (mutate mem_backend main_driver
     (OpPutFile ''/a/g'' (stream ''ab'') False) demo_repo))) = 1 \<and>
   opens mem_backend main_driver demo_repo \<and>
   kind_check mem_backend (OpDeleteFile ''/a'') (tree demo_repo) \<noteq> None \<and>
   snd (mutate mem_backend main_driver (OpDeleteFile ''/a'') demo_repo) = demo_repo \<and>
   fst (backend_change mem_backend (OpDeleteDir ''/a'') (tree demo_repo)) \<noteq> None \<and>
   snd (backend_change mem_backend (OpDeleteDir ''/a'') (tree demo_repo)) = tree demo_repo \<and>
   snd (mutate mem_backend main_driver (OpDeleteDir ''/a'') demo_repo) = demo_repo"
proof -
  let ?put = "OpPutFile ''/a/g'' (stream ''ab'') False"
  let ?s = "snd (mutate mem_backend main_driver ?put demo_repo)"
  have ok: "fst (mutate mem_backend main_driver ?put demo_repo) = None"
    by code_simp
  note t = C1_commit_or_no_rollback [of mem_backend main_driver ?put demo_repo,
      THEN conjunct1, THEN mp, OF ok]
  have bc: "backend_change mem_backend ?put (tree demo_repo) =
      (None, tree demo_repo @ [([''a'', ''g''], RFile ''ab'')])"
    by code_simp
  with t have tr: "tree ?s = tree demo_repo @ [([''a'', ''g''], RFile ''ab'')]"
    by (simp del: mutate.simps)
  have "stage_paths mem_backend (tree demo_repo @ [([''a'', ''g''], RFile ''ab'')])
      (op_paths ?put) (index demo_repo) = Inr (index demo_repo @ [([''a'', ''g''], ''ab'')])"
    by code_simp
  with t tr have ix: "index ?s = index demo_repo @ [([''a'', ''g''], ''ab'')]"
    by (simp del: mutate.simps)
  have "commits demo_repo = []" by (simp add: demo_repo_def)
  with t have cm: "length (commits ?s) = 1"
    by (simp del: mutate.simps)
  have op: "opens mem_backend main_driver demo_repo"
    by (simp add: opens_def mem_backend_def)
  have refused: "kind_check mem_backend (OpDeleteFile ''/a'') (tree demo_repo) \<noteq> None"
    by code_simp
  have b: "snd (mutate mem_backend main_driver (OpDeleteFile ''/a'') demo_repo) = demo_repo"
    using C1_commit_or_no_rollback [of mem_backend main_driver "OpDeleteFile ''/a''" demo_repo]
      refused
    by blast
  have fails: "fst (backend_change mem_backend (OpDeleteDir ''/a'') (tree demo_repo)) \<noteq> None"
    by code_simp
  have same: "snd (backend_change mem_backend (OpDeleteDir ''/a'') (tree demo_repo)) =
      tree demo_repo"
    by code_simp
  have c: "snd (mutate mem_backend main_driver (OpDeleteDir ''/a'') demo_repo) = demo_repo"
    using C1_commit_or_no_rollback [of mem_backend main_driver "OpDeleteDir ''/a''" demo_repo]
      fails same
    by blast
  show ?thesis using ok tr ix cm op refused b fails same c by blast
qed

text \<open>
  Claim C2: a successful call of a mutating method makes the commit log longer by exactly
  one, and \<^verbatim>\<open>Stat\<close>, \<^verbatim>\<open>ChangeDir\<close>, \<^verbatim>\<open>ListDir\<close> and \<^verbatim>\<open>GetFile\<close> leave the commit
  log as it is.
\<close>

theorem C2_one_commit_per_success:
  "(fst (mutate B driver op r) = None \<longrightarrow>
      length (commits (snd (mutate B driver op r))) = Suc (length (commits r))) \<and>
   commits (snd (Stat B driver path r)) = commits r \<and>
   commits (snd (ChangeDir B driver path r)) = commits r \<and>
   commits (snd (ListDir B driver path callback c r)) = commits r \<and>
   commits (snd (GetFile B driver path offset r)) = commits r"
proof -
  obtain e r' where m: "mutate B driver op r = (e, r')" by (cases "mutate B driver op r")
  have "e = None \<longrightarrow> length (commits r') = Suc (length (commits r))"
    using mutate_result(1) [OF m] by auto
  moreover have "snd (Stat B driver path r) = r"
    by (simp add: Stat_def Let_def split: option.splits sum.splits)
  moreover have "snd (ChangeDir B driver path r) = r"
    by (simp add: ChangeDir_def split: option.splits sum.splits)
  moreover have "snd (ListDir B driver path callback c r) = r"
    by (simp add: ListDir_def Let_def split: option.splits sum.splits)
  moreover have "snd (GetFile B driver path offset r) = r"
    by (simp add: GetFile_def Let_def split: option.splits sum.splits)
  ultimately show ?thesis by (simp add: m)
qed

text \<open>Claim C2 on a successful \<^verbatim>\<open>PutFile("/a/g", "ab", false)\<close>.\<close>

theorem C2_one_commit_per_success_witness:
  "fst (mutate mem_backend main_driver (OpPutFile ''/a/g'' (stream ''ab'') False) demo_repo) = None \<and>
   length (commits (snd (mutate mem_backend main_driver
      (OpPutFile ''/a/g'' (stream ''ab'') False) demo_repo))) = Suc (length (commits demo_repo))"
proof -
  have ok: "fst (mutate mem_backend main_driver (OpPutFile ''/a/g'' (stream ''ab'') False)
      demo_repo) = None"
    by code_simp
  show ?thesis
    using ok C2_one_commit_per_success [of mem_backend main_driver
        "OpPutFile ''/a/g'' (stream ''ab'') False" demo_repo "''/a''" count_cb 0 0,
        THEN conjunct1, THEN mp, OF ok]
    by (rule conjI)
qed

text \<open>
  Claim C5: when the repository opens and the entry at the path is a directory,
  \<^verbatim>\<open>DeleteFile\<close> returns the error "Not a file"; when the entry is not a directory,
  \<^verbatim>\<open>DeleteDir\<close> returns the error "Not a directory"; both errors are of the kind
  WrongKind, and in both cases the state returned is the state before the call, so no
  commit is made and the entry is still in the working tree.
\<close>

theorem C5_wrong_kind_refused:
  assumes "opens B driver r" and "fs_Lstat B (tree r) path = Inr f"
  shows "(fi_IsDir f \<longrightarrow> DeleteFile B driver path r = (Some (ErrNew ''Not a file''), r)) \<and>
         (\<not> fi_IsDir f \<longrightarrow> DeleteDir B driver path r = (Some (ErrNew ''Not a directory''), r)) \<and>
         WrongKind (ErrNew ''Not a file'') \<and> WrongKind (ErrNew ''Not a directory'')"
  using assms by (simp add: opens_def DeleteFile_def DeleteDir_def WrongKind_def)

text \<open>Claim C5 on the directory \<open>/a\<close> and the file \<open>/a/f.txt\<close>.\<close>

theorem C5_wrong_kind_refused_witness:
  "opens mem_backend main_driver demo_repo \<and>
   DeleteFile mem_backend main_driver ''/a'' demo_repo = (Some (ErrNew ''Not a file''), demo_repo) \<and>
   DeleteDir mem_backend main_driver ''/a/f.txt'' demo_repo =
     (Some (ErrNew ''Not a directory''), demo_repo)"
proof -
  have op: "opens mem_backend main_driver demo_repo"
    by (simp add: opens_def mem_backend_def)
  have d: "fs_Lstat mem_backend (tree demo_repo) ''/a'' = Inr (info_of [''a''] RDir)"
    by code_simp
  have f: "fs_Lstat mem_backend (tree demo_repo) ''/a/f.txt'' =
      Inr (info_of [''a'', ''f.txt''] (RFile ''hello''))"
    by code_simp
  have k: "fi_IsDir (info_of [''a''] RDir)" "\<not> fi_IsDir (info_of [''a'', ''f.txt''] (RFile ''hello''))"
    by (simp_all add: info_of_def)
  show ?thesis
    using C5_wrong_kind_refused [OF op d] C5_wrong_kind_refused [OF op f] op k by simp
qed

text \<open>
  Claim C10: a mutating call with a path that does not begin with a slash returns an
  error and adds no commit, because staging that path fails; when the repository opened
  and the kind check passed, the working tree is nevertheless what the backend calls of
  the method left.
\<close>

theorem C10_relative_path_not_committed:
  assumes "p \<in> set (op_paths op)" and "\<not> rooted p"
  shows "fst (mutate B driver op r) \<noteq> None \<and>
         commits (snd (mutate B driver op r)) = commits r \<and>
         (opens B driver r \<and> kind_check B op (tree r) = None \<longrightarrow>
            tree (snd (mutate B driver op r)) = snd (backend_change B op (tree r)))"
proof -
  obtain e r' where m: "mutate B driver op r = (e, r')" by (cases "mutate B driver op r")
  have "e \<noteq> None" using mutate_relative [OF assms, of B driver r] m by simp
  then show ?thesis using mutate_result(2,4) [OF m] m by simp
qed

text \<open>
  Claim C10 on \<^verbatim>\<open>PutFile("a/g", "ab", false)\<close>: the call fails, there is no commit, and
  the file is in the working tree.
\<close>

theorem C10_relative_path_not_committed_witness:
  "''a/g'' \<in> set (op_paths (OpPutFile ''a/g'' (stream ''ab'') False)) \<and> \<not> rooted ''a/g'' \<and>
   fst (mutate mem_backend main_driver (OpPutFile ''a/g'' (stream ''ab'') False) demo_repo) \<noteq> None \<and>
   commits (snd (mutate mem_backend main_driver (OpPutFile ''a/g'' (stream ''ab'') False) demo_repo))
     = commits demo_repo \<and>
   tree (snd (mutate mem_backend main_driver (OpPutFile ''a/g'' (stream ''ab'') False) demo_repo))
     = tree demo_repo @ [([''a'', ''g''], RFile ''ab'')]"
proof -
  have p: "''a/g'' \<in> set (op_paths (OpPutFile ''a/g'' (stream ''ab'') False))" by simp
  have nr: "\<not> rooted ''a/g''" by (simp add: rooted_def)
  have op: "opens mem_backend main_driver demo_repo"
    by (simp add: opens_def mem_backend_def)
  have k: "kind_check mem_backend (OpPutFile ''a/g'' (stream ''ab'') False) (tree demo_repo) = None"
    by code_simp
  have b: "snd (backend_change mem_backend (OpPutFile ''a/g'' (stream ''ab'') False) (tree demo_repo))
      = tree demo_repo @ [([''a'', ''g''], RFile ''ab'')]"
    by code_simp
  show ?thesis
    using C10_relative_path_not_committed [OF p nr, of mem_backend main_driver demo_repo]
      p nr op k b by (simp del: mutate.simps)
qed

section \<open>Listing and metadata\<close>

text \<open>
  Claim C6: when the backend stat of a path reports a directory, the metadata \<^verbatim>\<open>Stat\<close>
  returns carries that stat result and has the directory bit set in its mode, whatever
  mode the permission collaborator returned; and every entry \<^verbatim>\<open>ListDir\<close> passes to its
  callback whose backend stat reports a directory has the directory bit set in its mode.
\<close>

theorem C6_directory_bit:
  "(fs_Stat B (tree r) path = Inr f \<and> fi_IsDir f \<and> fst (Stat B driver path r) = Inr fi \<longrightarrow>
      base fi = f \<and> mode fi AND ModeDir = ModeDir) \<and>
   (\<forall>fi' \<in> set (ListDir_calls B driver path callback c r).
      fi_IsDir (base fi') \<longrightarrow> mode fi' AND ModeDir = ModeDir)"
proof (intro conjI impI ballI)
  assume a: "fs_Stat B (tree r) path = Inr f \<and> fi_IsDir f \<and> fst (Stat B driver path r) = Inr fi"
  then show "base fi = f" "mode fi AND ModeDir = ModeDir"
    by (auto simp: Stat_def Let_def or_ModeDir split: option.splits sum.splits)
next
  fix fi' assume a: "fi' \<in> set (ListDir_calls B driver path callback c r)" "fi_IsDir (base fi')"
  from calls_are_entries [OF a(1)] obtain child where
    "ListDir_entry B driver path (tree r) child = Inr fi'" by blast
  from entry_fields(4) [OF this] a(2) show "mode fi' AND ModeDir = ModeDir" by simp
qed

text \<open>Claim C6 on the directory \<open>/a\<close>, with the permission collaborator of the command line.\<close>

theorem C6_directory_bit_witness:
  "fs_Stat mem_backend (tree demo_repo) ''/a'' = Inr (info_of [''a''] RDir) \<and>
   fi_IsDir (info_of [''a''] RDir) \<and>
   fst (Stat mem_backend main_driver ''/a'' demo_repo) =
     Inr \<lparr>base = info_of [''a''] RDir, mode = ModePerm OR ModeDir,
          owner = ''user'', group = ''group''\<rparr> \<and>
   (ModePerm OR ModeDir) AND ModeDir = ModeDir"
proof -
  have s: "fs_Stat mem_backend (tree demo_repo) ''/a'' = Inr (info_of [''a''] RDir)"
    by code_simp
  have d: "fi_IsDir (info_of [''a''] RDir)" by (simp add: info_of_def)
  have t: "fst (Stat mem_backend main_driver ''/a'' demo_repo) =
     Inr \<lparr>base = info_of [''a''] RDir, mode = ModePerm OR ModeDir,
          owner = ''user'', group = ''group''\<rparr>"
    by code_simp
  from C6_directory_bit [of mem_backend demo_repo "''/a''" "info_of [''a''] RDir" main_driver
      "\<lparr>base = info_of [''a''] RDir, mode = ModePerm OR ModeDir,
          owner = ''user'', group = ''group''\<rparr>" count_cb 0, THEN conjunct1, THEN mp] s d t
  have "(ModePerm OR ModeDir) AND ModeDir = ModeDir" by simp
  with s d t show ?thesis by simp
qed

text \<open>
  Claim C7. The repository opens and the backend enumerates the children of the
  directory as \<open>files\<close>. When the entries of all children can be built and the callback
  accepts them one after the other, \<^verbatim>\<open>ListDir\<close> returns no error and has called the
  callback exactly once per child, in the order of \<open>files\<close>. When the entries of the
  first \<open>k\<close> children were built and accepted and the callback returns an error on the
  entry of the next child, \<^verbatim>\<open>ListDir\<close> returns that error at once: the calls are those
  for the first \<open>k + 1\<close> children and there is none for a later child. When instead the
  backend stat or the identity lookup for the next child fails, \<^verbatim>\<open>ListDir\<close> returns
  that error and the calls are those for the first \<open>k\<close> children only. Read from the
  result: a \<^verbatim>\<open>ListDir\<close> that returns no error has called the callback once per child, in
  order, and one that returns an error has called it for the first children only, the
  error being that of the next child's entry or that of the last call.
\<close>

theorem C7_callback_once_per_child:
  assumes "opens B driver r" and "fs_ReadDir B (tree r) path = Inr files"
  shows "(map (ListDir_entry B driver path (tree r)) files = map Inr fis \<and>
          feed callback c fis = (None, c1) \<longrightarrow>
            fst (ListDir B driver path callback c r) = (None, c1) \<and>
            ListDir_calls B driver path callback c r = fis) \<and>
         (k < length files \<and>
          map (ListDir_entry B driver path (tree r)) (take k files) = map Inr fis \<and>
          feed callback c fis = (None, c1) \<and>
          ListDir_entry B driver path (tree r) (files ! k) = Inr fi \<and>
          callback c1 fi = (Some err, c2) \<longrightarrow>
            fst (ListDir B driver path callback c r) = (Some err, c2) \<and>
            ListDir_calls B driver path callback c r = fis @ [fi]) \<and>
         (k < length files \<and>
          map (ListDir_entry B driver path (tree r)) (take k files) = map Inr fis \<and>
          feed callback c fis = (None, c1) \<and>
          ListDir_entry B driver path (tree r) (files ! k) = Inl err \<longrightarrow>
            fst (ListDir B driver path callback c r) = (Some err, c1) \<and>
            ListDir_calls B driver path callback c r = fis) \<and>
         (fst (fst (ListDir B driver path callback c r)) = None \<longrightarrow>
            length (ListDir_calls B driver path callback c r) = length files \<and>
            map Inr (ListDir_calls B driver path callback c r) =
              map (ListDir_entry B driver path (tree r)) files) \<and>
         (\<forall>err. fst (fst (ListDir B driver path callback c r)) = Some err \<longrightarrow>
            map Inr (ListDir_calls B driver path callback c r) =
              map (ListDir_entry B driver path (tree r))
                (take (length (ListDir_calls B driver path callback c r)) files) \<and>
            ((length (ListDir_calls B driver path callback c r) < length files \<and>
              ListDir_entry B driver path (tree r)
                (files ! length (ListDir_calls B driver path callback c r)) = Inl err) \<or>
             (ListDir_calls B driver path callback c r \<noteq> [] \<and>
              (\<exists>c0. fst (callback c0 (last (ListDir_calls B driver path callback c r)))
                 = Some err))))"
proof (intro conjI impI)
  assume a: "map (ListDir_entry B driver path (tree r)) files = map Inr fis \<and>
          feed callback c fis = (None, c1)"
  then have "map (ListDir_entry B driver path (tree r)) files = map Inr fis"
    "feed callback c fis = (None, c1)" by simp_all
  from ListDir_completes [OF assms this]
  show "fst (ListDir B driver path callback c r) = (None, c1)"
    "ListDir_calls B driver path callback c r = fis" by simp_all
next
  assume a: "k < length files \<and>
          map (ListDir_entry B driver path (tree r)) (take k files) = map Inr fis \<and>
          feed callback c fis = (None, c1) \<and>
          ListDir_entry B driver path (tree r) (files ! k) = Inr fi \<and>
          callback c1 fi = (Some err, c2)"
  then have h: "k < length files"
    "map (ListDir_entry B driver path (tree r)) (take k files) = map Inr fis"
    "feed callback c fis = (None, c1)"
    "ListDir_entry B driver path (tree r) (files ! k) = Inr fi"
    "callback c1 fi = (Some err, c2)" by simp_all
  from ListDir_stops(2) [OF assms h]
  show "fst (ListDir B driver path callback c r) = (Some err, c2)"
    "ListDir_calls B driver path callback c r = fis @ [fi]" by simp_all
next
  assume a: "k < length files \<and>
          map (ListDir_entry B driver path (tree r)) (take k files) = map Inr fis \<and>
          feed callback c fis = (None, c1) \<and>
          ListDir_entry B driver path (tree r) (files ! k) = Inl err"
  then have h: "k < length files"
    "map (ListDir_entry B driver path (tree r)) (take k files) = map Inr fis"
    "feed callback c fis = (None, c1)"
    "ListDir_entry B driver path (tree r) (files ! k) = Inl err" by simp_all
  from ListDir_stops(1) [OF assms h]
  show "fst (ListDir B driver path callback c r) = (Some err, c1)"
    "ListDir_calls B driver path callback c r = fis" by simp_all
next
  note old = ListDir_result_calls [OF assms, of callback c]
  from old show "fst (fst (ListDir B driver path callback c r)) = None \<Longrightarrow>
      length (ListDir_calls B driver path callback c r) = length files" by simp
  from old show "fst (fst (ListDir B driver path callback c r)) = None \<Longrightarrow>
      map Inr (ListDir_calls B driver path callback c r) =
        map (ListDir_entry B driver path (tree r)) files" by simp
  from old show "\<forall>err. fst (fst (ListDir B driver path callback c r)) = Some err \<longrightarrow>
            map Inr (ListDir_calls B driver path callback c r) =
              map (ListDir_entry B driver path (tree r))
                (take (length (ListDir_calls B driver path callback c r)) files) \<and>
            ((length (ListDir_calls B driver path callback c r) < length files \<and>
              ListDir_entry B driver path (tree r)
                (files ! length (ListDir_calls B driver path callback c r)) = Inl err) \<or>
             (ListDir_calls B driver path callback c r \<noteq> [] \<and>
              (\<exists>c0. fst (callback c0 (last (ListDir_calls B driver path callback c r)))
                 = Some err)))" by (rule conjunct2)
qed

text \<open>
  Claim C7 on the directory \<open>/a\<close> with its two children: a callback that accepts is called
  twice, in order; a callback that refuses is called once, with the first child, and its
  error is what \<^verbatim>\<open>ListDir\<close> returns.
\<close>

theorem C7_callback_once_per_child_witness:
  "opens mem_backend main_driver demo_repo \<and>
   fs_ReadDir mem_backend (tree demo_repo) ''/a'' =
     Inr [info_of [''a'', ''e.txt''] (RFile ''xy''), info_of [''a'', ''f.txt''] (RFile ''hello'')] \<and>
   fst (ListDir mem_backend main_driver ''/a'' count_cb 0 demo_repo) = (None, 2) \<and>
   map base (ListDir_calls mem_backend main_driver ''/a'' count_cb 0 demo_repo) =
     [info_of [''a'', ''e.txt''] (RFile ''xy''), info_of [''a'', ''f.txt''] (RFile ''hello'')] \<and>
   fst (ListDir mem_backend main_driver ''/a'' refuse_cb 0 demo_repo) =
     (Some (ErrOther ''stop''), 1) \<and>
   map base (ListDir_calls mem_backend main_driver ''/a'' refuse_cb 0 demo_repo) =
     [info_of [''a'', ''e.txt''] (RFile ''xy'')]"
proof -
  let ?e = "\<lparr>base = info_of [''a'', ''e.txt''] (RFile ''xy''), mode = 420,
             owner = ''user'', group = ''group''\<rparr>"
  let ?f = "\<lparr>base = info_of [''a'', ''f.txt''] (RFile ''hello''), mode = 420,
             owner = ''user'', group = ''group''\<rparr>"
  let ?files = "[info_of [''a'', ''e.txt''] (RFile ''xy''),
                 info_of [''a'', ''f.txt''] (RFile ''hello'')]"
  have op: "opens mem_backend main_driver demo_repo"
    by (simp add: opens_def mem_backend_def)
  have rd: "fs_ReadDir mem_backend (tree demo_repo) ''/a'' = Inr ?files"
    by code_simp
  have all: "map (ListDir_entry mem_backend main_driver ''/a'' (tree demo_repo)) ?files =
      map Inr [?e, ?f]"
    by code_simp
  have fd: "feed count_cb 0 [?e, ?f] = (None, 2)"
    by (simp add: count_cb_def)
  from C7_callback_once_per_child [OF op rd, of "[?e, ?f]" count_cb 0 2,
      THEN conjunct1, THEN mp, OF conjI, OF all fd]
  have acc: "fst (ListDir mem_backend main_driver ''/a'' count_cb 0 demo_repo) = (None, 2)"
    "ListDir_calls mem_backend main_driver ''/a'' count_cb 0 demo_repo = [?e, ?f]"
    by simp_all
  have k: "0 < length ?files" by simp
  have pre: "map (ListDir_entry mem_backend main_driver ''/a'' (tree demo_repo))
      (take 0 ?files) = map Inr []"
    by simp
  have fd0: "feed refuse_cb 0 [] = (None, 0)" by simp
  have ent: "ListDir_entry mem_backend main_driver ''/a'' (tree demo_repo) (?files ! 0) = Inr ?e"
    by code_simp
  have rf: "refuse_cb 0 ?e = (Some (ErrOther ''stop''), 1)"
    by (simp add: refuse_cb_def)
  from C7_callback_once_per_child [OF op rd, of "[]" refuse_cb 0 0 0 ?e "ErrOther ''stop''" 1,
      THEN conjunct2, THEN conjunct1, THEN mp] k pre fd0 ent rf
  have ref: "fst (ListDir mem_backend main_driver ''/a'' refuse_cb 0 demo_repo) =
      (Some (ErrOther ''stop''), 1)"
    "ListDir_calls mem_backend main_driver ''/a'' refuse_cb 0 demo_repo = [?e]"
    by simp_all
  show ?thesis using op rd acc ref by simp
qed

text \<open>
  Claim C8: the owner and the group of every entry \<^verbatim>\<open>ListDir\<close> passes to its callback are
  what the permission collaborator answers for the path of the listed directory.
\<close>

theorem C8_owner_group_of_listed_directory:
  "\<forall>fi \<in> set (ListDir_calls B driver path callback c r).
     GetOwner (perm driver) path = Inr (owner fi) \<and> GetGroup (perm driver) path = Inr (group fi)"
proof
  fix fi assume "fi \<in> set (ListDir_calls B driver path callback c r)"
  from calls_are_entries [OF this] obtain child where
    "ListDir_entry B driver path (tree r) child = Inr fi" by blast
  from entry_fields(1,2) [OF this]
  show "GetOwner (perm driver) path = Inr (owner fi) \<and>
        GetGroup (perm driver) path = Inr (group fi)" by simp
qed

text \<open>
  Claim C8 with a permission collaborator that answers with the path it was asked about:
  the two children of \<open>/a\<close> are listed with owner and group \<open>/a\<close>, not with their own
  paths.
\<close>

theorem C8_owner_group_of_listed_directory_witness:
  "map base (ListDir_calls mem_backend path_driver ''/a'' count_cb 0 demo_repo) =
     [info_of [''a'', ''e.txt''] (RFile ''xy''), info_of [''a'', ''f.txt''] (RFile ''hello'')] \<and>
   map owner (ListDir_calls mem_backend path_driver ''/a'' count_cb 0 demo_repo) =
     [''/a'', ''/a''] \<and>
   map group (ListDir_calls mem_backend path_driver ''/a'' count_cb 0 demo_repo) =
     [''/a'', ''/a'']"
proof -
  let ?calls = "ListDir_calls mem_backend path_driver ''/a'' count_cb 0 demo_repo"
  have b: "map base ?calls =
     [info_of [''a'', ''e.txt''] (RFile ''xy''), info_of [''a'', ''f.txt''] (RFile ''hello'')]"
    by code_simp
  then have n: "length ?calls = 2" by (metis length_map length_Cons list.size(3) numeral_2_eq_2)
  have all: "\<forall>fi \<in> set ?calls. owner fi = ''/a'' \<and> group fi = ''/a''"
    using C8_owner_group_of_listed_directory [of mem_backend path_driver "''/a''" count_cb 0
        demo_repo]
    by (simp add: path_driver_def path_perm_def)
  have "replicate (length (map owner ?calls)) ''/a'' = map owner ?calls"
    by (rule replicate_length_same) (use all in auto)
  moreover have "replicate (length (map group ?calls)) ''/a'' = map group ?calls"
    by (rule replicate_length_same) (use all in auto)
  ultimately show ?thesis using b n by (simp add: numeral_2_eq_2)
qed

section \<open>Writing, appending and renaming\<close>

text \<open>
  Claim C3: when the backend reports that nothing exists at the path,
  \<^verbatim>\<open>PutFile\<close> with \<open>append = true\<close> is \<^verbatim>\<open>PutFile\<close> with \<open>append = false\<close>: the same
  results and the same state. A successful call has created the file with the backend's
  \<^verbatim>\<open>Create\<close> and written the bytes of the stream to it, and returns the number of bytes
  written. With the collaborator in memory, the file then holds exactly the bytes of the
  stream: \<^verbatim>\<open>GetFile\<close> at offset 0 returns their number as size and reads them back.
\<close>

theorem C3_append_to_missing_creates:
  "(fs_Lstat B (tree r) p = Inl e \<and> os_IsNotExist e \<longrightarrow>
      PutFile B driver p data True r = PutFile B driver p data False r) \<and>
   (fs_Lstat B (tree r) p = Inl e \<and> os_IsNotExist e \<and>
    PutFile B driver p data True r = ((n, None), r') \<longrightarrow>
      (\<exists>fs2 f k. fs_Create B (tree r) p = Inr (fs2, f) \<and>
         f_Write B fs2 f (r_bytes data) = (tree r', k, None) \<and> n = int k)) \<and>
   (r_Stat (tree s) p = Inl ErrNotExist \<and>
    PutFile mem_backend driver p data True s = ((m, None), s') \<longrightarrow>
      m = int (length (r_bytes data)) \<and>
      (\<exists>h. fst (GetFile mem_backend driver p 0 s') = Inr (m, h) \<and>
           r_ReadAll (tree s') h = r_bytes data))"
proof -
  have same: "PutFile B driver p data True r = PutFile B driver p data False r"
    if "fs_Lstat B (tree r) p = Inl e" "os_IsNotExist e"
    using PutFile_append_fresh(1) [OF that] .
  have fresh: "\<exists>fs2 f k. fs_Create B (tree r) p = Inr (fs2, f) \<and>
         f_Write B fs2 f (r_bytes data) = (tree r', k, None) \<and> n = int k"
    if l: "fs_Lstat B (tree r) p = Inl e" "os_IsNotExist e"
      and pf: "PutFile B driver p data True r = ((n, None), r')"
  proof -
    have ex: "PutFile_isExist B (tree r) p = Inr False"
      using PutFile_append_fresh(2) [OF l] .
    from PutFile_success_fresh [OF pf ex] obtain fs2 f where
      c: "fs_Create B (tree r) p = Inr (fs2, f)" and
      cp: "io_Copy B fs2 f data = (tree r', n, None)"
      by blast
    from io_Copy_None [OF cp] c show ?thesis by blast
  qed
  have inmem: "m = int (length (r_bytes data)) \<and>
      (\<exists>h. fst (GetFile mem_backend driver p 0 s') = Inr (m, h) \<and>
           r_ReadAll (tree s') h = r_bytes data)"
    if st: "r_Stat (tree s) p = Inl ErrNotExist"
      and pf: "PutFile mem_backend driver p data True s = ((m, None), s')"
  proof -
    from st have l: "fs_Lstat mem_backend (tree s) p = Inl ErrNotExist"
      by (simp add: mem_fields)
    have ex: "PutFile_isExist mem_backend (tree s) p = Inr False"
      using PutFile_append_fresh(2) [OF l] by simp
    from PutFile_success_fresh [OF pf ex] obtain fs2 f where
      c: "r_Create (tree s) p = Inr (fs2, f)" and
      cp: "io_Copy mem_backend fs2 f data = (tree s', m, None)"
      by (auto simp: mem_fields)
    from io_Copy_None [OF cp] obtain k where
      w: "r_Write fs2 f (r_bytes data) = (tree s', k, None)" and m: "m = int k"
      by (auto simp: mem_fields)
    from r_Create_Inr [OF c] w have
      ne: "resolve p \<noteq> []" and
      t: "tree s' = AList.update (resolve p) (RFile (r_bytes data)) (tree s)" and
      k: "k = length (r_bytes data)"
      by (simp_all add: r_Write_fresh)
    have "map_of (tree s') (resolve p) = Some (RFile (r_bytes data))"
      by (simp add: t update_conv')
    from read_back [OF refl ne this, of driver s'] m k show ?thesis by simp
  qed
  from same fresh inmem show ?thesis by blast
qed

text \<open>Claim C3 on \<^verbatim>\<open>PutFile("/a/g", "ab", true)\<close>, where \<open>/a/g\<close> does not exist.\<close>

theorem C3_append_to_missing_creates_witness:
  "r_Stat (tree demo_repo) ''/a/g'' = Inl ErrNotExist \<and>
   PutFile mem_backend main_driver ''/a/g'' (stream ''ab'') True demo_repo =
     PutFile mem_backend main_driver ''/a/g'' (stream ''ab'') False demo_repo \<and>
   fst (PutFile mem_backend main_driver ''/a/g'' (stream ''ab'') True demo_repo) = (2, None) \<and>
   (\<exists>h. fst (GetFile mem_backend main_driver ''/a/g'' 0
              (snd (PutFile mem_backend main_driver ''/a/g'' (stream ''ab'') True demo_repo))) =
            Inr (2, h) \<and>
        r_ReadAll (tree (snd (PutFile mem_backend main_driver ''/a/g'' (stream ''ab'') True
              demo_repo))) h = ''ab'')"
proof -
  let ?s' = "snd (PutFile mem_backend main_driver ''/a/g'' (stream ''ab'') True demo_repo)"
  have st: "r_Stat (tree demo_repo) ''/a/g'' = Inl ErrNotExist" by code_simp
  then have l: "fs_Lstat mem_backend (tree demo_repo) ''/a/g'' = Inl ErrNotExist"
    by (simp add: mem_backend_def)
  have ne: "os_IsNotExist ErrNotExist" by simp
  have r: "fst (PutFile mem_backend main_driver ''/a/g'' (stream ''ab'') True demo_repo) =
      (2, None)"
    by code_simp
  then have pf: "PutFile mem_backend main_driver ''/a/g'' (stream ''ab'') True demo_repo =
      ((2, None), ?s')"
    by (simp add: prod_eq_iff)
  note t = C3_append_to_missing_creates [of mem_backend demo_repo "''/a/g''" ErrNotExist
      main_driver "stream ''ab''" 2 ?s' demo_repo 2 ?s']
  from t l ne have same:
    "PutFile mem_backend main_driver ''/a/g'' (stream ''ab'') True demo_repo =
     PutFile mem_backend main_driver ''/a/g'' (stream ''ab'') False demo_repo"
    by blast
  from t st pf have "\<exists>h. fst (GetFile mem_backend main_driver ''/a/g'' 0 ?s') = Inr (2, h) \<and>
      r_ReadAll (tree ?s') h = r_bytes (stream ''ab'')"
    by blast
  then have "\<exists>h. fst (GetFile mem_backend main_driver ''/a/g'' 0 ?s') = Inr (2, h) \<and>
      r_ReadAll (tree ?s') h = ''ab''"
    by (simp add: stream_def)
  with st same r show ?thesis by blast
qed

text \<open>
  Claim C4: a successful \<^verbatim>\<open>PutFile\<close> with \<open>append = true\<close> on an existing regular file
  has opened the file for appending, moved to its end and written the bytes of the
  stream there, and returns the number of bytes written. With the collaborator in
  memory and a file of content \<open>c\<close>, \<^verbatim>\<open>GetFile\<close> at offset 0 afterwards returns the size
  \<open>length c + length data\<close> and reads \<open>c\<close> followed by the bytes of the stream.
\<close>

theorem C4_append_then_read:
  "(PutFile_isExist B (tree r) p = Inr True \<and>
    PutFile B driver p data True r = ((n, None), r') \<longrightarrow>
      (\<exists>f f' k. fs_OpenFile B (tree r) p [O_APPEND, O_RDWR] 432 = Inr f \<and>
         f_Seek B (tree r) f 0 SEEK_END = Inr f' \<and>
         f_Write B (tree r) f' (r_bytes data) = (tree r', k, None) \<and> n = int k)) \<and>
   (r_lookup (tree s) (resolve p) = Some (RFile c) \<and>
    PutFile mem_backend driver p data True s = ((m, None), s') \<longrightarrow>
      m = int (length (r_bytes data)) \<and>
      (\<exists>h. fst (GetFile mem_backend driver p 0 s') =
              Inr (int (length c) + int (length (r_bytes data)), h) \<and>
           r_ReadAll (tree s') h = c @ r_bytes data))"
proof -
  have appended: "\<exists>f f' k. fs_OpenFile B (tree r) p [O_APPEND, O_RDWR] 432 = Inr f \<and>
         f_Seek B (tree r) f 0 SEEK_END = Inr f' \<and>
         f_Write B (tree r) f' (r_bytes data) = (tree r', k, None) \<and> n = int k"
    if ex: "PutFile_isExist B (tree r) p = Inr True"
      and pf: "PutFile B driver p data True r = ((n, None), r')"
  proof -
    from PutFile_success_append [OF pf ex] obtain f f' where
      o: "fs_OpenFile B (tree r) p [O_APPEND, O_RDWR] 432 = Inr f"
        "f_Seek B (tree r) f 0 SEEK_END = Inr f'" and
      cp: "io_Copy B (tree r) f' data = (tree r', n, None)"
      by blast
    from io_Copy_None [OF cp] o show ?thesis by blast
  qed
  have inmem: "m = int (length (r_bytes data)) \<and>
      (\<exists>h. fst (GetFile mem_backend driver p 0 s') =
              Inr (int (length c) + int (length (r_bytes data)), h) \<and>
           r_ReadAll (tree s') h = c @ r_bytes data)"
    if lk: "r_lookup (tree s) (resolve p) = Some (RFile c)"
      and pf: "PutFile mem_backend driver p data True s = ((m, None), s')"
  proof -
    from r_lookup_file [OF lk] have
      f: "resolve p \<noteq> []" "map_of (tree s) (resolve p) = Some (RFile c)"
      by simp_all
    have ex: "PutFile_isExist mem_backend (tree s) p = Inr True"
      using lk by (rule isExist_mem_file)
    from PutFile_success_append [OF pf ex] obtain f0 f' where
      o: "r_OpenFile (tree s) p [O_APPEND, O_RDWR] 432 = Inr f0" and
      sk: "r_Seek (tree s) f0 0 SEEK_END = Inr f'" and
      cp: "io_Copy mem_backend (tree s) f' data = (tree s', m, None)"
      by (auto simp: mem_fields)
    from o sk lk have f': "f' =
        \<lparr>h_path = resolve p, h_pos = r_size (tree s) (resolve p), h_append = True\<rparr>"
      by (auto simp: r_OpenFile_def r_Seek_def)
    from io_Copy_None [OF cp] obtain k where
      w: "r_Write (tree s) f' (r_bytes data) = (tree s', k, None)" and m: "m = int k"
      by (auto simp: mem_fields)
    from w f' r_Write_append [OF f(2), of "r_size (tree s) (resolve p)" "r_bytes data"]
    have t: "tree s' = AList.update (resolve p) (RFile (c @ r_bytes data)) (tree s)"
      and k: "k = length (r_bytes data)"
      by simp_all
    have "map_of (tree s') (resolve p) = Some (RFile (c @ r_bytes data))"
      by (simp add: t update_conv')
    from read_back [OF refl f(1) this, of driver s'] m k show ?thesis by simp
  qed
  from appended inmem show ?thesis by blast
qed

text \<open>Claim C4 on the file \<open>/a/f.txt\<close> with content \<open>hello\<close>, appending \<open> world\<close>.\<close>

theorem C4_append_then_read_witness:
  "r_lookup (tree demo_repo) (resolve ''/a/f.txt'') = Some (RFile ''hello'') \<and>
   fst (PutFile mem_backend main_driver ''/a/f.txt'' (stream '' world'') True demo_repo) =
     (6, None) \<and>
   (\<exists>h. fst (GetFile mem_backend main_driver ''/a/f.txt'' 0
              (snd (PutFile mem_backend main_driver ''/a/f.txt'' (stream '' world'') True
                 demo_repo))) = Inr (11, h) \<and>
        r_ReadAll (tree (snd (PutFile mem_backend main_driver ''/a/f.txt'' (stream '' world'')
              True demo_repo))) h = ''hello world'')"
proof -
  let ?s' = "snd (PutFile mem_backend main_driver ''/a/f.txt'' (stream '' world'') True demo_repo)"
  have lk: "r_lookup (tree demo_repo) (resolve ''/a/f.txt'') = Some (RFile ''hello'')"
    by code_simp
  have r: "fst (PutFile mem_backend main_driver ''/a/f.txt'' (stream '' world'') True demo_repo)
      = (6, None)"
    by code_simp
  then have pf: "PutFile mem_backend main_driver ''/a/f.txt'' (stream '' world'') True demo_repo
      = ((6, None), ?s')"
    by (simp add: prod_eq_iff)
  from C4_append_then_read [of mem_backend demo_repo "''/a/f.txt''" main_driver
      "stream '' world''" 6 ?s' demo_repo "''hello''" 6 ?s', THEN conjunct2, THEN mp,
      OF conjI, OF lk pf]
  have "\<exists>h. fst (GetFile mem_backend main_driver ''/a/f.txt'' 0 ?s') = Inr (11, h) \<and>
      r_ReadAll (tree ?s') h = ''hello world''"
    by (simp add: stream_def)
  with lk r show ?thesis by blast
qed

text \<open>
  Claim C9: a successful \<^verbatim>\<open>Rename\<close> has renamed in the backend, then staged the source
  path and then the destination path from the new working tree, and then committed the
  staging area so obtained. With the collaborator in memory, a regular file \<open>a\<close> of content
  \<open>c\<close> and a path \<open>b\<close> at which nothing exists, \<^verbatim>\<open>Stat\<close> and \<^verbatim>\<open>GetFile\<close> of \<open>a\<close> fail
  afterwards because nothing exists there, \<^verbatim>\<open>Stat\<close> of \<open>b\<close> succeeds, when the identity
  lookups for \<open>b\<close> do, and reports a regular file of size \<open>length c\<close>, and \<^verbatim>\<open>GetFile\<close>
  of \<open>b\<close> reads \<open>c\<close>.
\<close>

theorem C9_rename_moves_file:
  "(Rename B driver a b r = (None, r') \<longrightarrow>
      (\<exists>ra rb ix1.
         fs_Rename B (tree r) a b = Inr (tree r') \<and>
         Rel_root a = Inr ra \<and> tree_Add B (tree r') (index r) ra = Inr ix1 \<and>
         Rel_root b = Inr rb \<and> tree_Add B (tree r') ix1 rb = Inr (index r') \<and>
         commits r' = commits r @ [driver_commit B (r'\<lparr>commits := commits r\<rparr>)])) \<and>
   (r_lookup (tree s) (resolve a) = Some (RFile c) \<and> r_lookup (tree s) (resolve b) = None \<and>
    Rename mem_backend driver a b s = (None, s') \<longrightarrow>
      fst (Stat mem_backend driver a s') = Inl ErrNotExist \<and>
      fst (GetFile mem_backend driver a 0 s') = Inl ErrNotExist \<and>
      (GetMode (perm driver) b = Inr m \<and> GetOwner (perm driver) b = Inr ow \<and>
       GetGroup (perm driver) b = Inr gr \<longrightarrow>
         fst (Stat mem_backend driver b s') =
           Inr \<lparr>base = \<lparr>fi_Name = last (resolve b), fi_Size = int (length c), fi_Mode = 420,
                         fi_IsDir = False\<rparr>,
                mode = m, owner = ow, group = gr\<rparr>) \<and>
      (\<exists>h. fst (GetFile mem_backend driver b 0 s') = Inr (int (length c), h) \<and>
           r_ReadAll (tree s') h = c))"
proof -
  have staged: "\<exists>ra rb ix1.
         fs_Rename B (tree r) a b = Inr (tree r') \<and>
         Rel_root a = Inr ra \<and> tree_Add B (tree r') (index r) ra = Inr ix1 \<and>
         Rel_root b = Inr rb \<and> tree_Add B (tree r') ix1 rb = Inr (index r') \<and>
         commits r' = commits r @ [driver_commit B (r'\<lparr>commits := commits r\<rparr>)]"
    if "Rename B driver a b r = (None, r')"
    using that by (rule Rename_None)
  have moved: "fst (Stat mem_backend driver a s') = Inl ErrNotExist \<and>
      fst (GetFile mem_backend driver a 0 s') = Inl ErrNotExist \<and>
      (GetMode (perm driver) b = Inr m \<and> GetOwner (perm driver) b = Inr ow \<and>
       GetGroup (perm driver) b = Inr gr \<longrightarrow>
         fst (Stat mem_backend driver b s') =
           Inr \<lparr>base = \<lparr>fi_Name = last (resolve b), fi_Size = int (length c), fi_Mode = 420,
                         fi_IsDir = False\<rparr>,
                mode = m, owner = ow, group = gr\<rparr>) \<and>
      (\<exists>h. fst (GetFile mem_backend driver b 0 s') = Inr (int (length c), h) \<and>
           r_ReadAll (tree s') h = c)"
    if la: "r_lookup (tree s) (resolve a) = Some (RFile c)"
      and lb: "r_lookup (tree s) (resolve b) = None"
      and rn: "Rename mem_backend driver a b s = (None, s')"
  proof -
    from Rename_None [OF rn] have "r_Rename (tree s) a b = Inr (tree s')"
      by (auto simp: mem_fields)
    note f = r_Rename_file [OF la lb this]
    from r_lookup_file [OF la] have ma: "map_of (tree s) (resolve a) = Some (RFile c)" by simp
    from r_lookup_None [OF lb] have mb: "map_of (tree s) (resolve b) = None" by simp
    from map_of_moved [OF mb f(3)] f(4) ma have
      nb: "map_of (tree s') (resolve b) = Some (RFile c)" and
      na: "map_of (tree s') (resolve a) = None"
      by simp_all
    have sa: "r_Stat (tree s') a = Inl ErrNotExist"
      using na f(1) by (simp add: r_Stat_def r_lookup_def)
    have sb: "r_Stat (tree s') b = Inr \<lparr>fi_Name = last (resolve b), fi_Size = int (length c),
        fi_Mode = 420, fi_IsDir = False\<rparr>"
      using nb f(2) by (simp add: r_Stat_def r_lookup_def info_of_def)
    have "fst (Stat mem_backend driver a s') = Inl ErrNotExist"
      using sa by (simp add: Stat_mem)
    moreover have "fst (GetFile mem_backend driver a 0 s') = Inl ErrNotExist"
      using sa by (simp add: GetFile_def mem_fields)
    moreover have "fst (Stat mem_backend driver b s') =
           Inr \<lparr>base = \<lparr>fi_Name = last (resolve b), fi_Size = int (length c), fi_Mode = 420,
                         fi_IsDir = False\<rparr>,
                mode = m, owner = ow, group = gr\<rparr>"
      if "GetMode (perm driver) b = Inr m \<and> GetOwner (perm driver) b = Inr ow \<and>
       GetGroup (perm driver) b = Inr gr"
      using that sb by (simp add: Stat_mem)
    moreover from read_back [OF refl f(2) nb, of driver s']
    have "\<exists>h. fst (GetFile mem_backend driver b 0 s') = Inr (int (length c), h) \<and>
           r_ReadAll (tree s') h = c"
      by simp
    ultimately show ?thesis by blast
  qed
  from staged moved show ?thesis by blast
qed

text \<open>
  Claim C9 on renaming \<open>/a/f.txt\<close> to \<open>/a/h.txt\<close>: the staging area has lost the source and
  gained the destination.
\<close>

theorem C9_rename_moves_file_witness:
  "r_lookup (tree demo_repo) (resolve ''/a/f.txt'') = Some (RFile ''hello'') \<and>
   r_lookup (tree demo_repo) (resolve ''/a/h.txt'') = None \<and>
   fst (Rename mem_backend main_driver ''/a/f.txt'' ''/a/h.txt'' demo_repo) = None \<and>
   index (snd (Rename mem_backend main_driver ''/a/f.txt'' ''/a/h.txt'' demo_repo)) =
     [([''a'', ''e.txt''], ''xy''), ([''a'', ''h.txt''], ''hello'')] \<and>
   fst (Stat mem_backend main_driver ''/a/f.txt''
         (snd (Rename mem_backend main_driver ''/a/f.txt'' ''/a/h.txt'' demo_repo))) =
     Inl ErrNotExist \<and>
   fst (Stat mem_backend main_driver ''/a/h.txt''
         (snd (Rename mem_backend main_driver ''/a/f.txt'' ''/a/h.txt'' demo_repo))) =
     Inr \<lparr>base = \<lparr>fi_Name = ''h.txt'', fi_Size = 5, fi_Mode = 420, fi_IsDir = False\<rparr>,
          mode = ModePerm, owner = ''user'', group = ''group''\<rparr>"
proof -
  let ?s' = "snd (Rename mem_backend main_driver ''/a/f.txt'' ''/a/h.txt'' demo_repo)"
  have la: "r_lookup (tree demo_repo) (resolve ''/a/f.txt'') = Some (RFile ''hello'')"
    by code_simp
  have lb: "r_lookup (tree demo_repo) (resolve ''/a/h.txt'') = None"
    by code_simp
  have ok: "fst (Rename mem_backend main_driver ''/a/f.txt'' ''/a/h.txt'' demo_repo) = None"
    by code_simp
  then have rn: "Rename mem_backend main_driver ''/a/f.txt'' ''/a/h.txt'' demo_repo = (None, ?s')"
    by (simp add: prod_eq_iff)
  have ix: "index ?s' = [([''a'', ''e.txt''], ''xy''), ([''a'', ''h.txt''], ''hello'')]"
    by code_simp
  have pm: "GetMode (perm main_driver) ''/a/h.txt'' = Inr ModePerm \<and>
      GetOwner (perm main_driver) ''/a/h.txt'' = Inr ''user'' \<and>
      GetGroup (perm main_driver) ''/a/h.txt'' = Inr ''group''"
    by (simp add: main_driver_def NewDriver_def SimplePerm_def)
  have nm: "last (resolve ''/a/h.txt'') = ''h.txt''" by code_simp
  note t = C9_rename_moves_file [of mem_backend main_driver "''/a/f.txt''" "''/a/h.txt''"
      demo_repo ?s' demo_repo "''hello''" ?s' ModePerm "''user''" "''group''",
      THEN conjunct2, THEN mp, OF conjI, OF la conjI, OF lb rn]
  from t have a: "fst (Stat mem_backend main_driver ''/a/f.txt'' ?s') = Inl ErrNotExist"
    by (rule conjunct1)
  from t pm nm have b: "fst (Stat mem_backend main_driver ''/a/h.txt'' ?s') =
     Inr \<lparr>base = \<lparr>fi_Name = ''h.txt'', fi_Size = 5, fi_Mode = 420, fi_IsDir = False\<rparr>,
          mode = ModePerm, owner = ''user'', group = ''group''\<rparr>"
    by simp
  from la lb ok ix a b show ?thesis by blast
qed

end
